theory Spec2Isabelle
  imports Main
begin

section \<open>Data model\<close>

text \<open>
  The types imported by \<^verbatim>\<open>KnowledgeGraphManager.ts\<close> from \<^verbatim>\<open>types/index.js\<close>.
  \<^verbatim>\<open>Omit<Entity, keyof BaseRecord>\<close> and \<^verbatim>\<open>Omit<Relation, keyof BaseRecord>\<close>, the
  argument types of the create methods, are the records \<open>EntityInput\<close> and
  \<open>RelationInput\<close>; their fields are always written with the qualified name.
  The argument and result objects of the observation methods come first for the same
  reason.
\<close>

record ObservationAddition =
  entityName :: string
  contents :: "string list"

record ObservationResult =
  entityName :: string
  addedObservations :: "string list"

record ObservationDeletion =
  entityName :: string
  observations :: "string list"

record EntityInput =
  name :: string
  entityType :: string
  observations :: "string list"

record RelationInput =
  "from" :: string
  to :: string
  relationType :: string

record BaseRecord =
  uuid :: string
  createdAt :: string
  updatedAt :: string

record Entity = BaseRecord +
  name :: string
  entityType :: string
  observations :: "string list"

record Relation = BaseRecord +
  "from" :: string
  to :: string
  relationType :: string

record KnowledgeGraph =
  entries :: "Entity list"
  relations :: "Relation list"

record PaginationOptions =
  offset :: int
  limit :: int

record FilterOptions =
  entityTypes :: "string list option"
  relationTypes :: "string list option"
  fromDate :: "string option"
  toDate :: "string option"
  searchText :: "string option"

record 'a PaginatedResponse =
  items :: 'a
  total :: int
  hasMore :: bool
  nextOffset :: "int option"

text \<open>
  The errors a method can end with: the \<^verbatim>\<open>Error\<close> thrown by \<^verbatim>\<open>addObservations\<close>,
  the one thrown by \<^verbatim>\<open>getMemoryFilePath\<close>, and the two kinds of failure of the file
  system (\<^verbatim>\<open>ENOENT\<close>, which \<^verbatim>\<open>loadGraph\<close> catches, and every other one).
\<close>

datatype error = EntityNotFound string | PathNotSetError | ENOENT | IOError

definition bindE :: "error + 'a \<Rightarrow> ('a \<Rightarrow> error + 'b) \<Rightarrow> error + 'b" where
  "bindE m f = (case m of Inl err \<Rightarrow> Inl err | Inr x \<Rightarrow> f x)"


section \<open>Strings and arrays of the platform\<close>

text \<open>
  JavaScript strings are modelled as \<open>string\<close>. \<^verbatim>\<open>toLowerCase\<close> maps the letters
  \<^verbatim>\<open>A\<close> to \<^verbatim>\<open>Z\<close>; \<^verbatim>\<open>trim\<close> removes the ASCII white space and line
  terminators. \<^verbatim>\<open>String.prototype.includes\<close> is the search for a contiguous
  substring.
\<close>

definition newline :: char where
  "newline = CHR 0x0A"

definition toLowerCase :: "string \<Rightarrow> string" where
  "toLowerCase s =
     map (\<lambda>c. if (65::nat) \<le> of_char c \<and> of_char c \<le> (90::nat)
              then char_of (of_char c + (32::nat)) else c) s"

definition isWhiteSpace :: "char \<Rightarrow> bool" where
  "isWhiteSpace c = (c \<in> set [CHR 0x09, CHR 0x0A, CHR 0x0B, CHR 0x0C, CHR 0x0D, CHR 0x20])"

definition trim :: "string \<Rightarrow> string" where
  "trim s = rev (dropWhile isWhiteSpace (rev (dropWhile isWhiteSpace s)))"

fun startsWith :: "string \<Rightarrow> string \<Rightarrow> bool" where
  "startsWith s [] = True"
| "startsWith [] (q # qs) = False"
| "startsWith (c # cs) (q # qs) = (c = q \<and> startsWith cs qs)"

fun "includes" :: "string \<Rightarrow> string \<Rightarrow> bool" where
  "includes [] q = (q = [])"
| "includes (c # cs) q = (startsWith (c # cs) q \<or> includes cs q)"

text \<open>\<^verbatim>\<open>data.split("\n")\<close> and \<^verbatim>\<open>lines.join("\n")\<close>.\<close>

fun split :: "string \<Rightarrow> string list" where
  "split [] = [[]]"
| "split (c # cs) =
     (if c = newline then [] # split cs
      else (case split cs of [] \<Rightarrow> [[c]] | l # ls \<Rightarrow> (c # l) # ls))"

fun join :: "string list \<Rightarrow> string" where
  "join [] = []"
| "join [l] = l"
| "join (l # ls) = l @ newline # join ls"

text \<open>
  \<^verbatim>\<open>Array.prototype.slice(start, end)\<close> on integers: a negative index counts from
  the end, both are clamped to the array.
\<close>

definition slice :: "'a list \<Rightarrow> int \<Rightarrow> int \<Rightarrow> 'a list" where
  "slice xs start fin =
     (let len = int (length xs);
          k = (if start < 0 then max (len + start) 0 else min start len);
          final = (if fin < 0 then max (len + fin) 0 else min fin len)
      in take (nat (final - k)) (drop (nat k) xs))"

text \<open>The JavaScript \<^verbatim>\<open>a || b\<close> on an optional string: absent and empty are falsy.\<close>

definition orElse :: "string option \<Rightarrow> string \<Rightarrow> string" where
  "orElse a b = (case a of None \<Rightarrow> b | Some s \<Rightarrow> if s = [] then b else s)"


section \<open>The runtime and the backing file\<close>

text \<open>
  What \<^verbatim>\<open>JSON.parse\<close> returns for a line: an object tagged \<^verbatim>\<open>"entity"\<close> or
  \<^verbatim>\<open>"relation"\<close>, whose \<^verbatim>\<open>uuid\<close>, \<^verbatim>\<open>createdAt\<close> and \<^verbatim>\<open>updatedAt\<close> may be
  absent and whose other fields have the declared types, or any other value. The
  order of the fields of an object and fields beyond the declared ones are not
  modelled: \<^verbatim>\<open>JSON.stringify\<close> is a function of the values of the declared fields.
  \<open>None\<close> is the exception of a line that does not parse (and of \<^verbatim>\<open>null\<close>,
  whose \<^verbatim>\<open>item.type\<close> throws inside the same \<^verbatim>\<open>try\<close>).
\<close>

datatype item =
    EntityItem "string option" "string option" "string option" EntityInput
  | RelationItem "string option" "string option" "string option" RelationInput
  | OtherItem

text \<open>
  The functions of the platform a method calls. \<open>loadTimestamp R i\<close> and
  \<open>loadUUID R i\<close> are the values \<^verbatim>\<open>getCurrentTimestamp()\<close> and
  \<^verbatim>\<open>generateUUID()\<close> return while \<^verbatim>\<open>loadGraph\<close> processes its \<open>i\<close>-th line
  (a line reads the clock once and needs at most one identifier); \<open>timestamp R\<close>
  is the value of the method's own \<^verbatim>\<open>getCurrentTimestamp()\<close> and \<open>newUUID R i\<close>
  the identifier generated for the \<open>i\<close>-th created record. \<open>Date_getTime\<close> is the
  time value of \<^verbatim>\<open>new Date(s)\<close>, \<open>None\<close> for an invalid date.
\<close>

record runtime =
  JSON_parse :: "string \<Rightarrow> item option"
  JSON_stringify :: "item \<Rightarrow> string"
  Date_getTime :: "string \<Rightarrow> int option"
  loadTimestamp :: "nat \<Rightarrow> string"
  loadUUID :: "nat \<Rightarrow> string"
  timestamp :: string
  newUUID :: "nat \<Rightarrow> string"

text \<open>
  The backing file as the manager sees it: no path configured, no file at the path,
  a file that cannot be read or written, or a file with its contents.
\<close>

datatype backing = PathNotSet | NoFile | IOFailure | File string

definition readFile :: "backing \<Rightarrow> error + string" where
  "readFile b =
     (case b of PathNotSet \<Rightarrow> Inl PathNotSetError | NoFile \<Rightarrow> Inl ENOENT
      | IOFailure \<Rightarrow> Inl IOError | File data \<Rightarrow> Inr data)"

definition writeFile :: "backing \<Rightarrow> string \<Rightarrow> error + backing" where
  "writeFile b data =
     (case b of PathNotSet \<Rightarrow> Inl PathNotSetError | IOFailure \<Rightarrow> Inl IOError
      | NoFile \<Rightarrow> Inr (File data) | File old \<Rightarrow> Inr (File data))"


section \<open>loadGraph and saveGraph\<close>

definition emptyGraph :: KnowledgeGraph where
  "emptyGraph = \<lparr>entries = [], relations = []\<rparr>"

text \<open>
  The object built for a line: the fields of the item, with a missing or empty
  \<^verbatim>\<open>uuid\<close>, \<^verbatim>\<open>createdAt\<close> or \<^verbatim>\<open>updatedAt\<close> filled in.
\<close>

definition loadEntity ::
  "runtime \<Rightarrow> nat \<Rightarrow> string option \<Rightarrow> string option \<Rightarrow> string option \<Rightarrow> EntityInput \<Rightarrow> Entity" where
  "loadEntity R i u c m e =
     \<lparr>uuid = orElse u (loadUUID R i),
      createdAt = orElse c (loadTimestamp R i), updatedAt = orElse m (loadTimestamp R i),
      name = EntityInput.name e, entityType = EntityInput.entityType e,
      observations = EntityInput.observations e\<rparr>"

definition loadRelation ::
  "runtime \<Rightarrow> nat \<Rightarrow> string option \<Rightarrow> string option \<Rightarrow> string option \<Rightarrow> RelationInput \<Rightarrow> Relation" where
  "loadRelation R i u c m r =
     \<lparr>uuid = orElse u (loadUUID R i),
      createdAt = orElse c (loadTimestamp R i), updatedAt = orElse m (loadTimestamp R i),
      from = RelationInput.from r, to = RelationInput.to r,
      relationType = RelationInput.relationType r\<rparr>"

text \<open>The callback of \<^verbatim>\<open>lines.reduce\<close>, on the line and its index.\<close>

definition loadLine :: "runtime \<Rightarrow> nat \<times> string \<Rightarrow> KnowledgeGraph \<Rightarrow> KnowledgeGraph" where
  "loadLine R il graph =
     (case JSON_parse R (snd il) of
        None \<Rightarrow> graph
      | Some OtherItem \<Rightarrow> graph
      | Some (EntityItem u c m e) \<Rightarrow>
          graph\<lparr>entries := entries graph @ [loadEntity R (fst il) u c m e]\<rparr>
      | Some (RelationItem u c m r) \<Rightarrow>
          graph\<lparr>relations := relations graph @ [loadRelation R (fst il) u c m r]\<rparr>)"

definition loadGraph :: "runtime \<Rightarrow> backing \<Rightarrow> error + KnowledgeGraph" where
  "loadGraph R b =
     (case readFile b of
        Inr data \<Rightarrow>
          (let lines = filter (\<lambda>line. trim line \<noteq> []) (split data)
           in Inr (fold (loadLine R) (enumerate 0 lines) emptyGraph))
      | Inl err \<Rightarrow> if err = ENOENT then Inr emptyGraph else Inl err)"

definition entityItem :: "Entity \<Rightarrow> item" where
  "entityItem e =
     EntityItem (Some (uuid e)) (Some (createdAt e)) (Some (updatedAt e))
       \<lparr>EntityInput.name = name e, entityType = entityType e, observations = observations e\<rparr>"

definition relationItem :: "Relation \<Rightarrow> item" where
  "relationItem r =
     RelationItem (Some (uuid r)) (Some (createdAt r)) (Some (updatedAt r))
       \<lparr>RelationInput.from = from r, to = to r, relationType = relationType r\<rparr>"

definition graphLines :: "runtime \<Rightarrow> KnowledgeGraph \<Rightarrow> string list" where
  "graphLines R graph =
     map (\<lambda>e. JSON_stringify R (entityItem e)) (entries graph) @
     map (\<lambda>r. JSON_stringify R (relationItem r)) (relations graph)"

definition saveGraph :: "runtime \<Rightarrow> KnowledgeGraph \<Rightarrow> backing \<Rightarrow> error + backing" where
  "saveGraph R graph b = writeFile b (join (graphLines R graph))"


section \<open>Creating records\<close>

definition createEntities ::
  "runtime \<Rightarrow> backing \<Rightarrow> EntityInput list \<Rightarrow> error + Entity list \<times> backing" where
  "createEntities R b entities =
     bindE (loadGraph R b) (\<lambda>graph.
       let newEntities =
             map (\<lambda>(i, entity).
                    \<lparr>uuid = newUUID R i, createdAt = timestamp R, updatedAt = timestamp R,
                     name = EntityInput.name entity,
                     entityType = EntityInput.entityType entity,
                     observations = EntityInput.observations entity\<rparr>)
               (enumerate 0
                  (filter (\<lambda>e. \<not> list_ex (\<lambda>existingEntity.
                                   name existingEntity = EntityInput.name e) (entries graph))
                     entities))
       in if length newEntities > 0
          then bindE (saveGraph R (graph\<lparr>entries := entries graph @ newEntities\<rparr>) b)
                 (\<lambda>b'. Inr (newEntities, b'))
          else Inr (newEntities, b))"

definition createRelations ::
  "runtime \<Rightarrow> backing \<Rightarrow> RelationInput list \<Rightarrow> error + Relation list \<times> backing" where
  "createRelations R b rels =
     bindE (loadGraph R b) (\<lambda>graph.
       let newRelations =
             map (\<lambda>(i, relation).
                    \<lparr>uuid = newUUID R i, createdAt = timestamp R, updatedAt = timestamp R,
                     from = RelationInput.from relation, to = RelationInput.to relation,
                     relationType = RelationInput.relationType relation\<rparr>)
               (enumerate 0
                  (filter (\<lambda>r. \<not> list_ex (\<lambda>existingRelation.
                                   from existingRelation = RelationInput.from r \<and>
                                   to existingRelation = RelationInput.to r \<and>
                                   relationType existingRelation = RelationInput.relationType r)
                                 (relations graph))
                     rels))
       in if length newRelations > 0
          then bindE (saveGraph R (graph\<lparr>relations := relations graph @ newRelations\<rparr>) b)
                 (\<lambda>b'. Inr (newRelations, b'))
          else Inr (newRelations, b))"


section \<open>Observations\<close>

text \<open>
  \<^verbatim>\<open>graph.entries.find(...)\<close> returns the first entity with the name, and the method
  changes that object where it stands in \<^verbatim>\<open>graph.entries\<close>: \<open>updateFirst\<close>.
\<close>

fun updateFirst :: "('a \<Rightarrow> bool) \<Rightarrow> ('a \<Rightarrow> 'a) \<Rightarrow> 'a list \<Rightarrow> 'a list" where
  "updateFirst P f [] = []"
| "updateFirst P f (x # xs) = (if P x then f x # xs else x # updateFirst P f xs)"

text \<open>
  The callback of \<^verbatim>\<open>observations.map\<close> in \<^verbatim>\<open>addObservations\<close>, on the graph as
  the earlier elements of the batch left it: it throws for a missing entity, and
  otherwise returns its result and the graph with the entity changed.
\<close>

definition addObservationsCallback ::
  "string \<Rightarrow> KnowledgeGraph \<Rightarrow> ObservationAddition \<Rightarrow> error + ObservationResult \<times> KnowledgeGraph" where
  "addObservationsCallback ts graph ob =
     (case find (\<lambda>e. name e = ObservationAddition.entityName ob) (entries graph) of
        None \<Rightarrow> Inl (EntityNotFound (ObservationAddition.entityName ob))
      | Some entity \<Rightarrow>
          (let newObservations =
                 filter (\<lambda>content. content \<notin> set (observations entity))
                   (ObservationAddition.contents ob)
           in Inr (\<lparr>ObservationResult.entityName = ObservationAddition.entityName ob,
                    addedObservations = newObservations\<rparr>,
                   if length newObservations > 0
                   then graph\<lparr>entries :=
                          updateFirst (\<lambda>e. name e = ObservationAddition.entityName ob)
                            (\<lambda>e. e\<lparr>updatedAt := ts,
                                   observations := observations e @ newObservations\<rparr>)
                            (entries graph)\<rparr>
                   else graph)))"

text \<open>The \<^verbatim>\<open>map\<close> over the batch, in order; the first exception ends it.\<close>

fun addObservationsMap ::
  "string \<Rightarrow> KnowledgeGraph \<Rightarrow> ObservationAddition list
     \<Rightarrow> error + ObservationResult list \<times> KnowledgeGraph" where
  "addObservationsMap ts graph [] = Inr ([], graph)"
| "addObservationsMap ts graph (ob # obs) =
     bindE (addObservationsCallback ts graph ob) (\<lambda>(result, graph').
     bindE (addObservationsMap ts graph' obs) (\<lambda>(results, graph'').
       Inr (result # results, graph'')))"

definition addObservations ::
  "runtime \<Rightarrow> backing \<Rightarrow> ObservationAddition list
     \<Rightarrow> error + ObservationResult list \<times> backing" where
  "addObservations R b obs =
     bindE (loadGraph R b) (\<lambda>graph.
     bindE (addObservationsMap (timestamp R) graph obs) (\<lambda>(results, graph').
     bindE (saveGraph R graph' b) (\<lambda>b'. Inr (results, b'))))"

text \<open>The callback of \<^verbatim>\<open>deletions.forEach\<close> in \<^verbatim>\<open>deleteObservations\<close>.\<close>

definition deleteObservationsCallback ::
  "string \<Rightarrow> KnowledgeGraph \<Rightarrow> ObservationDeletion \<Rightarrow> KnowledgeGraph" where
  "deleteObservationsCallback ts graph d =
     (case find (\<lambda>e. name e = ObservationDeletion.entityName d) (entries graph) of
        None \<Rightarrow> graph
      | Some entity \<Rightarrow>
          (let initialLength = length (observations entity);
               remaining = filter (\<lambda>x. x \<notin> set (ObservationDeletion.observations d))
                             (observations entity)
           in graph\<lparr>entries :=
                updateFirst (\<lambda>e. name e = ObservationDeletion.entityName d)
                  (\<lambda>e. e\<lparr>updatedAt := (if length remaining \<noteq> initialLength
                                        then ts else updatedAt e),
                         observations := remaining\<rparr>)
                  (entries graph)\<rparr>))"

fun deleteObservationsEach ::
  "string \<Rightarrow> KnowledgeGraph \<Rightarrow> ObservationDeletion list \<Rightarrow> KnowledgeGraph" where
  "deleteObservationsEach ts graph [] = graph"
| "deleteObservationsEach ts graph (d # ds) =
     deleteObservationsEach ts (deleteObservationsCallback ts graph d) ds"

definition deleteObservations ::
  "runtime \<Rightarrow> backing \<Rightarrow> ObservationDeletion list \<Rightarrow> error + backing" where
  "deleteObservations R b deletions =
     bindE (loadGraph R b) (\<lambda>graph.
       saveGraph R (deleteObservationsEach (timestamp R) graph deletions) b)"


section \<open>Deleting records\<close>

definition deleteEntities :: "runtime \<Rightarrow> backing \<Rightarrow> string list \<Rightarrow> error + backing" where
  "deleteEntities R b entityNames =
     bindE (loadGraph R b) (\<lambda>graph.
       saveGraph R
         (graph\<lparr>entries := filter (\<lambda>e. name e \<notin> set entityNames) (entries graph),
                relations := filter (\<lambda>r. from r \<notin> set entityNames \<and> to r \<notin> set entityNames)
                               (relations graph)\<rparr>) b)"

definition deleteRelations :: "runtime \<Rightarrow> backing \<Rightarrow> Relation list \<Rightarrow> error + backing" where
  "deleteRelations R b rels =
     bindE (loadGraph R b) (\<lambda>graph.
       saveGraph R
         (graph\<lparr>relations :=
            filter (\<lambda>r. \<not> list_ex (\<lambda>delRelation.
                           from r = from delRelation \<and> to r = to delRelation \<and>
                           relationType r = relationType delRelation) rels)
              (relations graph)\<rparr>) b)"


section \<open>Reading, searching and traversing\<close>

text \<open>
  The methods of this section take every argument; a caller that leaves one out passes
  the default of the source: \<^verbatim>\<open>{ offset: 0, limit: 1000 }\<close> and \<^verbatim>\<open>{}\<close> for
  \<^verbatim>\<open>readGraph\<close>, \<^verbatim>\<open>{ offset: 0, limit: 20 }\<close> for \<^verbatim>\<open>searchNodes\<close>, depth 1 for
  \<^verbatim>\<open>getRelatedNodes\<close>. Numbers are integers.
\<close>

definition applyPagination :: "'a list \<Rightarrow> PaginationOptions \<Rightarrow> 'a list" where
  "applyPagination xs pagination =
     slice xs (offset pagination) (offset pagination + limit pagination)"

text \<open>
  The comparison of two \<^verbatim>\<open>Date\<close> objects is the comparison of their time values;
  with an invalid date on either side it is false.
\<close>

definition dateGe :: "int option \<Rightarrow> int option \<Rightarrow> bool" where
  "dateGe a b = (case a of None \<Rightarrow> False | Some x \<Rightarrow> (case b of None \<Rightarrow> False | Some y \<Rightarrow> x \<ge> y))"

definition dateLe :: "int option \<Rightarrow> int option \<Rightarrow> bool" where
  "dateLe a b = (case a of None \<Rightarrow> False | Some x \<Rightarrow> (case b of None \<Rightarrow> False | Some y \<Rightarrow> x \<le> y))"

text \<open>
  The guards \<^verbatim>\<open>if (filter.entityTypes?.length)\<close> and \<^verbatim>\<open>if (filter.searchText)\<close>:
  the clause runs on the two lists when the option is present and not empty.
\<close>

definition whenList :: "string list option \<Rightarrow> (string list \<Rightarrow> 'a \<Rightarrow> 'a) \<Rightarrow> 'a \<Rightarrow> 'a" where
  "whenList a f x = (case a of None \<Rightarrow> x | Some xs \<Rightarrow> if length xs \<noteq> 0 then f xs x else x)"

definition whenString :: "string option \<Rightarrow> (string \<Rightarrow> 'a \<Rightarrow> 'a) \<Rightarrow> 'a \<Rightarrow> 'a" where
  "whenString a f x = (case a of None \<Rightarrow> x | Some s \<Rightarrow> if s \<noteq> [] then f s x else x)"

definition applyFilters ::
  "runtime \<Rightarrow> Entity list \<Rightarrow> Relation list \<Rightarrow> FilterOptions \<Rightarrow> Entity list \<times> Relation list" where
  "applyFilters R entities rels flt =
     (let st1 = whenList (entityTypes flt)
                  (\<lambda>types (es, rs). (filter (\<lambda>e. entityType e \<in> set types) es, rs))
                  (entities, rels);
          st2 = whenList (relationTypes flt)
                  (\<lambda>types (es, rs). (es, filter (\<lambda>r. relationType r \<in> set types) rs))
                  st1;
          st3 = whenString (searchText flt)
                  (\<lambda>text (es, rs).
                     let searchLower = toLowerCase text
                     in (filter (\<lambda>e. includes (toLowerCase (name e)) searchLower \<or>
                                      includes (toLowerCase (entityType e)) searchLower \<or>
                                      list_ex (\<lambda>ob. includes (toLowerCase ob) searchLower)
                                        (observations e)) es,
                         filter (\<lambda>r. includes (toLowerCase (from r)) searchLower \<or>
                                      includes (toLowerCase (to r)) searchLower \<or>
                                      includes (toLowerCase (relationType r)) searchLower) rs))
                  st2;
          st4 = whenString (fromDate flt)
                  (\<lambda>d (es, rs).
                     let fromD = Date_getTime R d
                     in (filter (\<lambda>e. dateGe (Date_getTime R (updatedAt e)) fromD) es,
                         filter (\<lambda>r. dateGe (Date_getTime R (updatedAt r)) fromD) rs))
                  st3
      in whenString (toDate flt)
           (\<lambda>d (es, rs).
              let toD = Date_getTime R d
              in (filter (\<lambda>e. dateLe (Date_getTime R (updatedAt e)) toD) es,
                  filter (\<lambda>r. dateLe (Date_getTime R (updatedAt r)) toD) rs))
           st4)"

definition readGraph ::
  "runtime \<Rightarrow> backing \<Rightarrow> PaginationOptions \<Rightarrow> FilterOptions
     \<Rightarrow> error + KnowledgeGraph PaginatedResponse" where
  "readGraph R b pagination flt =
     bindE (loadGraph R b) (\<lambda>graph.
       let (filteredEntities, filteredRelations) =
             applyFilters R (entries graph) (relations graph) flt;
           totalEntities = int (length filteredEntities);
           totalRelations = int (length filteredRelations);
           paginatedEntities = applyPagination filteredEntities pagination;
           paginatedRelations = applyPagination filteredRelations pagination
       in Inr \<lparr>items = \<lparr>entries = paginatedEntities, relations = paginatedRelations\<rparr>,
               total = max totalEntities totalRelations,
               hasMore = (max totalEntities totalRelations
                            > offset pagination + limit pagination),
               nextOffset = Some (offset pagination + limit pagination)\<rparr>)"

text \<open>The two filters of \<^verbatim>\<open>searchNodes\<close>, on the loaded graph.\<close>

definition matchedEntities :: "KnowledgeGraph \<Rightarrow> string \<Rightarrow> Entity list" where
  "matchedEntities graph query =
     (let queryLower = toLowerCase query
      in filter (\<lambda>e. includes (toLowerCase (name e)) queryLower \<or>
                     includes (toLowerCase (entityType e)) queryLower \<or>
                     list_ex (\<lambda>ob. includes (toLowerCase ob) queryLower) (observations e))
           (entries graph))"

definition matchedRelations :: "KnowledgeGraph \<Rightarrow> string \<Rightarrow> Relation list" where
  "matchedRelations graph query =
     (let queryLower = toLowerCase query;
          matchedEntityNames = set (map name (matchedEntities graph query))
      in filter (\<lambda>r. includes (toLowerCase (from r)) queryLower \<or>
                     includes (toLowerCase (to r)) queryLower \<or>
                     includes (toLowerCase (relationType r)) queryLower \<or>
                     (from r \<in> matchedEntityNames \<and> to r \<in> matchedEntityNames))
           (relations graph))"

definition searchNodes ::
  "runtime \<Rightarrow> backing \<Rightarrow> string \<Rightarrow> PaginationOptions
     \<Rightarrow> error + KnowledgeGraph PaginatedResponse" where
  "searchNodes R b query pagination =
     bindE (loadGraph R b) (\<lambda>graph.
       let totalEntities = int (length (matchedEntities graph query));
           totalRelations = int (length (matchedRelations graph query));
           paginatedEntities =
             slice (matchedEntities graph query) (offset pagination)
               (offset pagination + limit pagination);
           paginatedRelations =
             slice (matchedRelations graph query) (offset pagination)
               (offset pagination + limit pagination);
           hasMoreEntities = (offset pagination + limit pagination < totalEntities);
           hasMoreRelations = (offset pagination + limit pagination < totalRelations)
       in Inr \<lparr>items = \<lparr>entries = paginatedEntities, relations = paginatedRelations\<rparr>,
               total = max totalEntities totalRelations,
               hasMore = (hasMoreEntities \<or> hasMoreRelations),
               nextOffset = (if hasMoreEntities \<or> hasMoreRelations
                             then Some (offset pagination + limit pagination)
                             else None)\<rparr>)"

text \<open>
  \<^verbatim>\<open>getRelatedNodes\<close>: the body of the inner \<^verbatim>\<open>for\<close> over the relations of a node,
  the outer \<^verbatim>\<open>for\<close> over the nodes of a level, and the \<^verbatim>\<open>while\<close> over the levels.
  The state of a level is the set \<^verbatim>\<open>relatedEntityNames\<close>, kept in insertion order, and
  the array \<^verbatim>\<open>nextLevelNodes\<close>.
\<close>

definition visitRelation :: "Relation \<Rightarrow> string list \<times> string list \<Rightarrow> string list \<times> string list" where
  "visitRelation relation st =
     (let st1 = (if from relation \<notin> set (fst st)
                 then (fst st @ [from relation], snd st @ [from relation]) else st)
      in if to relation \<notin> set (fst st1)
         then (fst st1 @ [to relation], snd st1 @ [to relation]) else st1)"

definition visitNode ::
  "KnowledgeGraph \<Rightarrow> string \<Rightarrow> string list \<times> string list \<Rightarrow> string list \<times> string list" where
  "visitNode graph nodeName st =
     (let relatedRelations =
            filter (\<lambda>r. from r = nodeName \<or> to r = nodeName) (relations graph)
      in fold visitRelation relatedRelations st)"

function expandLevels ::
  "KnowledgeGraph \<Rightarrow> string list \<Rightarrow> string list \<Rightarrow> int \<Rightarrow> int \<Rightarrow> string list" where
  "expandLevels graph relatedEntityNames nodesToProcess currentDepth depth =
     (if currentDepth < depth \<and> length nodesToProcess > 0
      then (let st = fold (visitNode graph) nodesToProcess (relatedEntityNames, [])
            in expandLevels graph (fst st) (snd st) (currentDepth + 1) depth)
      else relatedEntityNames)"
  by pat_completeness auto
termination
  by (relation "measure (\<lambda>(graph, names, nodes, currentDepth, depth). nat (depth - currentDepth))")
     auto

definition getRelatedNodes ::
  "runtime \<Rightarrow> backing \<Rightarrow> string \<Rightarrow> int \<Rightarrow> error + KnowledgeGraph" where
  "getRelatedNodes R b startingNodeName depth =
     bindE (loadGraph R b) (\<lambda>graph.
       let relatedEntityNames = expandLevels graph [startingNodeName] [startingNodeName] 0 depth
       in Inr \<lparr>entries = filter (\<lambda>e. name e \<in> set relatedEntityNames) (entries graph),
               relations = filter (\<lambda>r. from r \<in> set relatedEntityNames \<and>
                                        to r \<in> set relatedEntityNames)
                             (relations graph)\<rparr>)"

declare expandLevels.simps [simp del]


section \<open>loadGraph and saveGraph on objects\<close>

text \<open>
  The sections above keep of an entity or a relation its declared fields. What a file
  keeps of a graph depends on more: an object has its properties in the order they
  were set, \<^verbatim>\<open>loadGraph\<close> copies every property of a parsed line, the tag
  \<^verbatim>\<open>type\<close> included, and \<^verbatim>\<open>JSON.stringify\<close> writes the properties in their order.
  This section is \<^verbatim>\<open>loadGraph\<close> and \<^verbatim>\<open>saveGraph\<close> once more, on the objects
  themselves: a JSON value, and an object as the list of its properties in order.
  Numbers are integers, and a property name that is an array index, which JavaScript
  would put first, is not told apart.
\<close>

datatype json =
    JNull | JBool bool | JNumber int | JString string | JArray "json list"
  | JObject "(string \<times> json) list"

type_synonym object = "(string \<times> json) list"

text \<open>
  Setting a property keeps its place when the object has it and puts it last
  otherwise; \<^verbatim>\<open>{ ...source }\<close> after the properties of \<open>target\<close> sets the properties
  of \<open>source\<close> in their order.
\<close>

fun setProp :: "string \<Rightarrow> json \<Rightarrow> object \<Rightarrow> object" where
  "setProp k v [] = [(k, v)]"
| "setProp k v (p # ps) = (if fst p = k then (k, v) # ps else p # setProp k v ps)"

definition assign :: "object \<Rightarrow> object \<Rightarrow> object" where
  "assign target source = fold (\<lambda>p. setProp (fst p) (snd p)) source target"

fun truthy :: "json \<Rightarrow> bool" where
  "truthy JNull = False"
| "truthy (JBool b) = b"
| "truthy (JNumber n) = (n \<noteq> 0)"
| "truthy (JString s) = (s \<noteq> [])"
| "truthy (JArray xs) = True"
| "truthy (JObject ps) = True"

text \<open>\<^verbatim>\<open>item.uuid || this.generateUUID()\<close>, with \<open>None\<close> for a property that is absent.\<close>

definition orGenerated :: "json option \<Rightarrow> string \<Rightarrow> json" where
  "orGenerated a b = (case a of None \<Rightarrow> JString b | Some v \<Rightarrow> if truthy v then v else JString b)"

record platform =
  parseJSON :: "string \<Rightarrow> json option"
  stringifyJSON :: "json \<Rightarrow> string"

record ObjectGraph =
  entryObjects :: "object list"
  relationObjects :: "object list"

text \<open>
  \<^verbatim>\<open>{ ...item, uuid: item.uuid || ..., createdAt: ..., updatedAt: ... }\<close>, the same
  expression for an entity and for a relation.
\<close>

definition loadObject :: "runtime \<Rightarrow> nat \<Rightarrow> object \<Rightarrow> object" where
  "loadObject R i item =
     setProp ''updatedAt'' (orGenerated (map_of item ''updatedAt'') (loadTimestamp R i))
       (setProp ''createdAt'' (orGenerated (map_of item ''createdAt'') (loadTimestamp R i))
          (setProp ''uuid'' (orGenerated (map_of item ''uuid'') (loadUUID R i))
             (assign [] item)))"

text \<open>
  The callback of \<^verbatim>\<open>lines.reduce\<close>. Only an object has a \<^verbatim>\<open>type\<close>; the exception of
  a line that does not parse and the one of \<^verbatim>\<open>null\<close> are caught and leave the graph.
\<close>

definition loadObjectLine ::
  "platform \<Rightarrow> runtime \<Rightarrow> nat \<times> string \<Rightarrow> ObjectGraph \<Rightarrow> ObjectGraph" where
  "loadObjectLine P R il graph =
     (case parseJSON P (snd il) of
        Some (JObject item) \<Rightarrow>
          (let graph1 =
                 (if map_of item ''type'' = Some (JString ''entity'')
                  then graph\<lparr>entryObjects :=
                         entryObjects graph @ [loadObject R (fst il) item]\<rparr>
                  else graph)
           in if map_of item ''type'' = Some (JString ''relation'')
              then graph1\<lparr>relationObjects :=
                     relationObjects graph1 @ [loadObject R (fst il) item]\<rparr>
              else graph1)
      | _ \<Rightarrow> graph)"

definition loadObjects :: "platform \<Rightarrow> runtime \<Rightarrow> backing \<Rightarrow> error + ObjectGraph" where
  "loadObjects P R b =
     (case readFile b of
        Inr data \<Rightarrow>
          (let lines = filter (\<lambda>line. trim line \<noteq> []) (split data)
           in Inr (fold (loadObjectLine P R) (enumerate 0 lines)
                     \<lparr>entryObjects = [], relationObjects = []\<rparr>))
      | Inl err \<Rightarrow>
          if err = ENOENT then Inr \<lparr>entryObjects = [], relationObjects = []\<rparr> else Inl err)"

text \<open>\<^verbatim>\<open>{ type: "entity", ...e }\<close> and \<^verbatim>\<open>{ type: "relation", ...r }\<close>.\<close>

definition tagged :: "string \<Rightarrow> object \<Rightarrow> object" where
  "tagged tag e = assign [(''type'', JString tag)] e"

definition objectLines :: "platform \<Rightarrow> ObjectGraph \<Rightarrow> string list" where
  "objectLines P graph =
     map (\<lambda>e. stringifyJSON P (JObject (tagged ''entity'' e))) (entryObjects graph) @
     map (\<lambda>r. stringifyJSON P (JObject (tagged ''relation'' r))) (relationObjects graph)"

definition saveObjects :: "platform \<Rightarrow> ObjectGraph \<Rightarrow> backing \<Rightarrow> error + backing" where
  "saveObjects P graph b = writeFile b (join (objectLines P graph))"

text \<open>
  The record a create method makes of its \<open>i\<close>-th new candidate,
  \<^verbatim>\<open>{ ...entity, uuid: this.generateUUID(), createdAt: timestamp, updatedAt: timestamp }\<close>,
  the same expression in \<^verbatim>\<open>createEntities\<close> and in \<^verbatim>\<open>createRelations\<close>. The method
  pushes it on the loaded graph and passes the graph to \<^verbatim>\<open>saveGraph\<close>.
\<close>

definition createdObject :: "runtime \<Rightarrow> nat \<Rightarrow> object \<Rightarrow> object" where
  "createdObject R i entity =
     setProp ''updatedAt'' (JString (timestamp R))
       (setProp ''createdAt'' (JString (timestamp R))
          (setProp ''uuid'' (JString (newUUID R i)) (assign [] entity)))"


section \<open>Predicates of the statements\<close>

text \<open>
  A record is stamped when its identity and its two times are not empty: what
  \<^verbatim>\<open>loadGraph\<close> keeps as it is.
\<close>

definition stamped :: "'a BaseRecord_scheme \<Rightarrow> bool" where
  "stamped x = (uuid x \<noteq> [] \<and> createdAt x \<noteq> [] \<and> updatedAt x \<noteq> [])"

text \<open>
  What the statements about files ask of \<^verbatim>\<open>JSON.parse\<close> and \<^verbatim>\<open>JSON.stringify\<close>,
  on the records of one graph: the text of a record parses back to the record, has no
  line break in it and is not blank.
\<close>

definition jsonFaithful ::
  "(string \<Rightarrow> item option) \<Rightarrow> (item \<Rightarrow> string) \<Rightarrow> KnowledgeGraph \<Rightarrow> bool" where
  "jsonFaithful parse stringify graph =
     list_all (\<lambda>it. parse (stringify it) = Some it \<and> newline \<notin> set (stringify it) \<and>
                    trim (stringify it) \<noteq> [])
       (map entityItem (entries graph) @ map relationItem (relations graph))"

text \<open>The graph \<^verbatim>\<open>loadGraph\<close> builds from the lines of a saved graph.\<close>

definition reloaded :: "runtime \<Rightarrow> KnowledgeGraph \<Rightarrow> KnowledgeGraph" where
  "reloaded R graph =
     \<lparr>entries =
        map (\<lambda>(i, e). loadEntity R i (Some (uuid e)) (Some (createdAt e)) (Some (updatedAt e))
                        \<lparr>EntityInput.name = name e, entityType = entityType e,
                         observations = observations e\<rparr>)
          (enumerate 0 (entries graph)),
      relations =
        map (\<lambda>(i, r). loadRelation R i (Some (uuid r)) (Some (createdAt r)) (Some (updatedAt r))
                        \<lparr>RelationInput.from = from r, to = to r,
                         relationType = relationType r\<rparr>)
          (enumerate (length (entries graph)) (relations graph))\<rparr>"

text \<open>
  The frame of the observation methods: entity by entity, in place, the name, the
  identity, the creation time and the type stay, and an entity whose name is not in
  \<open>names\<close> stays whole.
\<close>

definition framed :: "string list \<Rightarrow> Entity list \<Rightarrow> Entity list \<Rightarrow> bool" where
  "framed names es es' =
     list_all2 (\<lambda>e e'. name e' = name e \<and> uuid e' = uuid e \<and> createdAt e' = createdAt e \<and>
                       entityType e' = entityType e \<and> (name e \<in> set names \<or> e' = e)) es es'"

text \<open>The uniqueness keys of the stored records, in the order of the graph.\<close>

definition entityKeys :: "KnowledgeGraph \<Rightarrow> string list" where
  "entityKeys graph = map name (entries graph)"

definition relationKey :: "Relation \<Rightarrow> string \<times> string \<times> string" where
  "relationKey r = (from r, to r, relationType r)"

definition inputKey :: "RelationInput \<Rightarrow> string \<times> string \<times> string" where
  "inputKey r = (RelationInput.from r, RelationInput.to r, RelationInput.relationType r)"

definition relationKeys :: "KnowledgeGraph \<Rightarrow> (string \<times> string \<times> string) list" where
  "relationKeys graph = map relationKey (relations graph)"

text \<open>
  The names one hop from a set of names, over a relation in either direction, and the
  names within \<open>k\<close> hops of a starting name.
\<close>

definition neighbours :: "KnowledgeGraph \<Rightarrow> string set \<Rightarrow> string set" where
  "neighbours graph A =
     set (map to (filter (\<lambda>r. from r \<in> A) (relations graph))) \<union>
     set (map from (filter (\<lambda>r. to r \<in> A) (relations graph)))"

fun withinHops :: "KnowledgeGraph \<Rightarrow> string \<Rightarrow> nat \<Rightarrow> string set" where
  "withinHops graph start 0 = {start}"
| "withinHops graph start (Suc k) =
     withinHops graph start k \<union> neighbours graph (withinHops graph start k)"

text \<open>
  An object as the manager holds one: no property twice, a truthy \<^verbatim>\<open>uuid\<close>,
  \<^verbatim>\<open>createdAt\<close> and \<^verbatim>\<open>updatedAt\<close> (set by a create method or by \<^verbatim>\<open>loadGraph\<close>), and
  either no \<^verbatim>\<open>type\<close> (a record just created) or its own tag (a record read from a
  file).
\<close>

definition builtRecord :: "string \<Rightarrow> object \<Rightarrow> bool" where
  "builtRecord tag e =
     (distinct (map fst e) \<and>
      list_all (\<lambda>k. case map_of e k of None \<Rightarrow> False | Some v \<Rightarrow> truthy v)
        [''uuid'', ''createdAt'', ''updatedAt''] \<and>
      (map_of e ''type'' = None \<or> map_of e ''type'' = Some (JString tag)))"

text \<open>The graph with the tag of each record set, as \<^verbatim>\<open>saveGraph\<close> writes it.\<close>

definition taggedGraph :: "ObjectGraph \<Rightarrow> ObjectGraph" where
  "taggedGraph graph =
     \<lparr>entryObjects = map (tagged ''entity'') (entryObjects graph),
      relationObjects = map (tagged ''relation'') (relationObjects graph)\<rparr>"

text \<open>
  What the round trip asks of \<^verbatim>\<open>JSON.parse\<close> and \<^verbatim>\<open>JSON.stringify\<close>, on the
  objects \<^verbatim>\<open>saveGraph\<close> writes for one graph: the text of an object parses back to the
  object, properties in order, has no line break in it and is not blank.
\<close>

definition objectsFaithful :: "platform \<Rightarrow> ObjectGraph \<Rightarrow> bool" where
  "objectsFaithful P graph =
     list_all (\<lambda>ob. parseJSON P (stringifyJSON P (JObject ob)) = Some (JObject ob) \<and>
                    newline \<notin> set (stringifyJSON P (JObject ob)) \<and>
                    trim (stringifyJSON P (JObject ob)) \<noteq> [])
       (entryObjects (taggedGraph graph) @ relationObjects (taggedGraph graph))"

text \<open>
  Two objects are equal up to the order of their properties, and the second is the
  first with \<^verbatim>\<open>type\<close> set to the tag.
\<close>

definition sameProperties :: "object \<Rightarrow> object \<Rightarrow> bool" where
  "sameProperties e e' = (set e' = set e)"

definition withTag :: "string \<Rightarrow> object \<Rightarrow> object \<Rightarrow> bool" where
  "withTag tag e e' = (set e' = insert (''type'', JString tag) (set e))"


section \<open>A concrete store\<close>

text \<open>
  The records of the examples, with the text \<^verbatim>\<open>JSON.stringify\<close> gives for each
  (a record made by a create method has its generated fields last, a record read from
  a file has the fields in the order of its line); the runtime of the examples reads
  and writes JSON by this table.
\<close>

definition entityA :: Entity where
  "entityA =
     \<lparr>uuid = ''a1'', createdAt = ''2024-03-01T10:00:00.000Z'',
      updatedAt = ''2024-03-01T10:00:00.000Z'',
      name = ''A'', entityType = ''node'',
      observations = [''first'']\<rparr>"

definition entityB :: Entity where
  "entityB =
     \<lparr>uuid = ''b1'', createdAt = ''2024-03-01T10:00:00.000Z'',
      updatedAt = ''2024-03-02T10:00:00.000Z'',
      name = ''B'', entityType = ''node'',
      observations = []\<rparr>"

definition entityC :: Entity where
  "entityC =
     \<lparr>uuid = ''c1'', createdAt = ''2024-03-01T10:00:00.000Z'',
      updatedAt = ''2024-03-01T10:00:00.000Z'',
      name = ''C'', entityType = ''leaf'',
      observations = [''last'']\<rparr>"

definition relationAB :: Relation where
  "relationAB =
     \<lparr>uuid = ''r1'', createdAt = ''2024-03-01T10:00:00.000Z'',
      updatedAt = ''2024-03-01T10:00:00.000Z'',
      from = ''A'', to = ''B'', relationType = ''links''\<rparr>"

definition relationBC :: Relation where
  "relationBC =
     \<lparr>uuid = ''r2'', createdAt = ''2024-03-01T10:00:00.000Z'',
      updatedAt = ''2024-03-02T10:00:00.000Z'',
      from = ''B'', to = ''C'', relationType = ''links''\<rparr>"

definition relationAA :: Relation where
  "relationAA =
     \<lparr>uuid = ''r3'', createdAt = ''2024-03-01T10:00:00.000Z'',
      updatedAt = ''2024-03-01T10:00:00.000Z'',
      from = ''A'', to = ''A'', relationType = ''self''\<rparr>"

definition relationXB :: Relation where
  "relationXB =
     \<lparr>uuid = ''r4'', createdAt = ''2024-03-01T10:00:00.000Z'',
      updatedAt = ''2024-03-01T10:00:00.000Z'',
      from = ''X'', to = ''B'', relationType = ''links''\<rparr>"

definition entityA2 :: Entity where
  "entityA2 =
     \<lparr>uuid = ''a1'', createdAt = ''2024-03-01T10:00:00.000Z'',
      updatedAt = ''2024-04-01T00:00:01.000Z'',
      name = ''A'', entityType = ''node'',
      observations = [''first'', ''second'']\<rparr>"

definition john0 :: Entity where
  "john0 =
     \<lparr>uuid = ''id-0'', createdAt = ''2024-04-01T00:00:01.000Z'',
      updatedAt = ''2024-04-01T00:00:01.000Z'',
      name = ''John'', entityType = ''person'',
      observations = [''Likes coffee'']\<rparr>"

definition john1 :: Entity where
  "john1 =
     \<lparr>uuid = ''id-1'', createdAt = ''2024-04-01T00:00:01.000Z'',
      updatedAt = ''2024-04-01T00:00:01.000Z'',
      name = ''John'', entityType = ''person'',
      observations = [''Likes coffee'']\<rparr>"

definition worksAt0 :: Relation where
  "worksAt0 =
     \<lparr>uuid = ''id-0'', createdAt = ''2024-04-01T00:00:01.000Z'',
      updatedAt = ''2024-04-01T00:00:01.000Z'',
      from = ''John'', to = ''Anthropic'', relationType = ''works_at''\<rparr>"

definition worksAt1 :: Relation where
  "worksAt1 =
     \<lparr>uuid = ''id-1'', createdAt = ''2024-04-01T00:00:01.000Z'',
      updatedAt = ''2024-04-01T00:00:01.000Z'',
      from = ''John'', to = ''Anthropic'', relationType = ''works_at''\<rparr>"

definition doubled :: Entity where
  "doubled =
     \<lparr>uuid = ''id-0'', createdAt = ''2024-04-01T00:00:01.000Z'',
      updatedAt = ''2024-04-01T00:00:01.000Z'',
      name = ''Echo'', entityType = ''node'',
      observations = [''same'', ''same'']\<rparr>"

definition jsonTable :: "(string \<times> item) list" where
  "jsonTable =
    [(''{\"type\":\"entity\",\"uuid\":\"a1\",\"createdAt\":\"2024-03-01T10:00:00.000Z\",\"updatedAt\":\"2024-03-01T10:00:00.000Z\",\"name\":\"A\",\"entityType\":\"node\",\"observations\":[\"first\"]}'',
      entityItem entityA),
     (''{\"type\":\"entity\",\"uuid\":\"b1\",\"createdAt\":\"2024-03-01T10:00:00.000Z\",\"updatedAt\":\"2024-03-02T10:00:00.000Z\",\"name\":\"B\",\"entityType\":\"node\",\"observations\":[]}'',
      entityItem entityB),
     (''{\"type\":\"entity\",\"uuid\":\"c1\",\"createdAt\":\"2024-03-01T10:00:00.000Z\",\"updatedAt\":\"2024-03-01T10:00:00.000Z\",\"name\":\"C\",\"entityType\":\"leaf\",\"observations\":[\"last\"]}'',
      entityItem entityC),
     (''{\"type\":\"relation\",\"uuid\":\"r1\",\"createdAt\":\"2024-03-01T10:00:00.000Z\",\"updatedAt\":\"2024-03-01T10:00:00.000Z\",\"from\":\"A\",\"to\":\"B\",\"relationType\":\"links\"}'',
      relationItem relationAB),
     (''{\"type\":\"relation\",\"uuid\":\"r2\",\"createdAt\":\"2024-03-01T10:00:00.000Z\",\"updatedAt\":\"2024-03-02T10:00:00.000Z\",\"from\":\"B\",\"to\":\"C\",\"relationType\":\"links\"}'',
      relationItem relationBC),
     (''{\"type\":\"relation\",\"uuid\":\"r3\",\"createdAt\":\"2024-03-01T10:00:00.000Z\",\"updatedAt\":\"2024-03-01T10:00:00.000Z\",\"from\":\"A\",\"to\":\"A\",\"relationType\":\"self\"}'',
      relationItem relationAA),
     (''{\"type\":\"relation\",\"uuid\":\"r4\",\"createdAt\":\"2024-03-01T10:00:00.000Z\",\"updatedAt\":\"2024-03-01T10:00:00.000Z\",\"from\":\"X\",\"to\":\"B\",\"relationType\":\"links\"}'',
      relationItem relationXB),
     (''{\"type\":\"entity\",\"uuid\":\"a1\",\"createdAt\":\"2024-03-01T10:00:00.000Z\",\"updatedAt\":\"2024-04-01T00:00:01.000Z\",\"name\":\"A\",\"entityType\":\"node\",\"observations\":[\"first\",\"second\"]}'',
      entityItem entityA2),
     (''{\"type\":\"entity\",\"name\":\"John\",\"entityType\":\"person\",\"observations\":[\"Likes coffee\"],\"uuid\":\"id-0\",\"createdAt\":\"2024-04-01T00:00:01.000Z\",\"updatedAt\":\"2024-04-01T00:00:01.000Z\"}'',
      entityItem john0),
     (''{\"type\":\"entity\",\"name\":\"John\",\"entityType\":\"person\",\"observations\":[\"Likes coffee\"],\"uuid\":\"id-1\",\"createdAt\":\"2024-04-01T00:00:01.000Z\",\"updatedAt\":\"2024-04-01T00:00:01.000Z\"}'',
      entityItem john1),
     (''{\"type\":\"relation\",\"from\":\"John\",\"to\":\"Anthropic\",\"relationType\":\"works_at\",\"uuid\":\"id-0\",\"createdAt\":\"2024-04-01T00:00:01.000Z\",\"updatedAt\":\"2024-04-01T00:00:01.000Z\"}'',
      relationItem worksAt0),
     (''{\"type\":\"relation\",\"from\":\"John\",\"to\":\"Anthropic\",\"relationType\":\"works_at\",\"uuid\":\"id-1\",\"createdAt\":\"2024-04-01T00:00:01.000Z\",\"updatedAt\":\"2024-04-01T00:00:01.000Z\"}'',
      relationItem worksAt1),
     (''{\"type\":\"entity\",\"name\":\"Echo\",\"entityType\":\"node\",\"observations\":[\"same\",\"same\"],\"uuid\":\"id-0\",\"createdAt\":\"2024-04-01T00:00:01.000Z\",\"updatedAt\":\"2024-04-01T00:00:01.000Z\"}'',
      entityItem doubled)]"

definition demoRuntime :: runtime where
  "demoRuntime =
     \<lparr>JSON_parse = map_of jsonTable,
      JSON_stringify = (\<lambda>it. case find (\<lambda>p. snd p = it) jsonTable of
                                Some p \<Rightarrow> fst p | None \<Rightarrow> ''null''),
      Date_getTime = (\<lambda>s. None),
      loadTimestamp = (\<lambda>i. ''2024-04-01T00:00:00.000Z''),
      loadUUID = (\<lambda>i. if i = 0 then ''fresh-0'' else ''fresh-1''),
      timestamp = ''2024-04-01T00:00:01.000Z'',
      newUUID = (\<lambda>i. if i = 0 then ''id-0'' else ''id-1'')\<rparr>"

definition laterRuntime :: runtime where
  "laterRuntime = demoRuntime\<lparr>timestamp := ''2024-04-02T00:00:00.000Z''\<rparr>"

definition fileOf :: "KnowledgeGraph \<Rightarrow> backing" where
  "fileOf graph = File (join (graphLines demoRuntime graph))"

definition chainGraph :: KnowledgeGraph where
  "chainGraph = \<lparr>entries = [entityA, entityB, entityC], relations = [relationAB, relationBC]\<rparr>"

definition noFilter :: FilterOptions where
  "noFilter = \<lparr>entityTypes = None, relationTypes = None, fromDate = None, toDate = None,
     searchText = None\<rparr>"

definition chainGraph2 :: KnowledgeGraph where
  "chainGraph2 = \<lparr>entries = [entityA2, entityB, entityC], relations = [relationAB, relationBC]\<rparr>"

definition addSecond :: ObservationAddition where
  "addSecond = \<lparr>ObservationAddition.entityName = ''A'', contents = [''second'']\<rparr>"

definition deleteFirst :: ObservationDeletion where
  "deleteFirst = \<lparr>ObservationDeletion.entityName = ''A'', observations = [''first'']\<rparr>"

definition loopGraph :: KnowledgeGraph where
  "loopGraph = \<lparr>entries = [entityA], relations = [relationAA]\<rparr>"

definition danglingGraph :: KnowledgeGraph where
  "danglingGraph = \<lparr>entries = [entityB], relations = [relationXB]\<rparr>"

definition onlyB :: KnowledgeGraph where
  "onlyB = \<lparr>entries = [entityB], relations = []\<rparr>"

definition addMissing :: ObservationAddition where
  "addMissing = \<lparr>ObservationAddition.entityName = ''Z'', contents = [''second'']\<rparr>"

definition deleteMissing :: ObservationDeletion where
  "deleteMissing = \<lparr>ObservationDeletion.entityName = ''Z'', observations = [''first'']\<rparr>"

definition johnInput :: EntityInput where
  "johnInput = \<lparr>EntityInput.name = ''John'', entityType = ''person'',
     observations = [''Likes coffee'']\<rparr>"

definition worksAtInput :: RelationInput where
  "worksAtInput = \<lparr>RelationInput.from = ''John'', to = ''Anthropic'',
     relationType = ''works_at''\<rparr>"

definition twoJohns :: KnowledgeGraph where
  "twoJohns = \<lparr>entries = [john0, john1], relations = []\<rparr>"

definition chainJohn :: KnowledgeGraph where
  "chainJohn = \<lparr>entries = [entityA, entityB, entityC, john0],
     relations = [relationAB, relationBC]\<rparr>"

definition chainWorks :: KnowledgeGraph where
  "chainWorks = \<lparr>entries = [entityA, entityB, entityC],
     relations = [relationAB, relationBC, worksAt0]\<rparr>"

definition twoWorksAt :: KnowledgeGraph where
  "twoWorksAt = \<lparr>entries = [], relations = [worksAt0, worksAt1]\<rparr>"

definition doubledInput :: EntityInput where
  "doubledInput = \<lparr>EntityInput.name = ''Echo'', entityType = ''node'',
     observations = [''same'', ''same'']\<rparr>"

definition doubledGraph :: KnowledgeGraph where
  "doubledGraph = \<lparr>entries = [doubled], relations = []\<rparr>"

definition addSame :: ObservationAddition where
  "addSame = \<lparr>ObservationAddition.entityName = ''Echo'', contents = [''same'']\<rparr>"

text \<open>
  The objects of the round trip: the entity \<^verbatim>\<open>createEntities\<close> makes of the candidate
  \<open>johnCandidate\<close>, with its generated properties last and no \<^verbatim>\<open>type\<close>, and the
  relation \<open>relationAB\<close> as read from its line; their lines, and a platform that reads
  and writes these.
\<close>

definition johnObject :: object where
  "johnObject =
     [(''name'', JString ''John''), (''entityType'', JString ''person''),
      (''observations'', JArray [JString ''Likes coffee'']),
      (''uuid'', JString ''id-0''), (''createdAt'', JString ''2024-04-01T00:00:01.000Z''),
      (''updatedAt'', JString ''2024-04-01T00:00:01.000Z'')]"

definition johnLine :: string where
  "johnLine = ''{\"type\":\"entity\",\"name\":\"John\",\"entityType\":\"person\",\"observations\":[\"Likes coffee\"],\"uuid\":\"id-0\",\"createdAt\":\"2024-04-01T00:00:01.000Z\",\"updatedAt\":\"2024-04-01T00:00:01.000Z\"}''"

definition linkObject :: object where
  "linkObject =
     [(''type'', JString ''relation''), (''uuid'', JString ''r1''),
      (''createdAt'', JString ''2024-03-01T10:00:00.000Z''),
      (''updatedAt'', JString ''2024-03-01T10:00:00.000Z''),
      (''from'', JString ''A''), (''to'', JString ''B''),
      (''relationType'', JString ''links'')]"

definition linkLine :: string where
  "linkLine = ''{\"type\":\"relation\",\"uuid\":\"r1\",\"createdAt\":\"2024-03-01T10:00:00.000Z\",\"updatedAt\":\"2024-03-01T10:00:00.000Z\",\"from\":\"A\",\"to\":\"B\",\"relationType\":\"links\"}''"

definition objectTable :: "(string \<times> json) list" where
  "objectTable =
     [(johnLine, JObject ((''type'', JString ''entity'') # johnObject)),
      (linkLine, JObject linkObject)]"

definition demoPlatform :: platform where
  "demoPlatform =
     \<lparr>parseJSON = map_of objectTable,
      stringifyJSON = (\<lambda>v. case find (\<lambda>p. snd p = v) objectTable of
                               Some p \<Rightarrow> fst p | None \<Rightarrow> ''null'')\<rparr>"

definition johnCandidate :: object where
  "johnCandidate =
     [(''name'', JString ''John''), (''entityType'', JString ''person''),
      (''observations'', JArray [JString ''Likes coffee''])]"

definition johnTagged :: object where
  "johnTagged = (''type'', JString ''entity'') # johnObject"

definition createdGraph :: ObjectGraph where
  "createdGraph = \<lparr>entryObjects = [johnObject], relationObjects = []\<rparr>"

definition mixedGraph :: ObjectGraph where
  "mixedGraph = \<lparr>entryObjects = [johnObject], relationObjects = [linkObject]\<rparr>"


section \<open>The platform functions\<close>

lemma bindE_Inr [simp]: "bindE (Inr x) f = f x"
  by (simp add: bindE_def)

lemma bindE_Inl [simp]: "bindE (Inl e) f = Inl e"
  by (simp add: bindE_def)

lemma split_not_Nil [simp]: "split s \<noteq> []"
  by (induction s) (auto split: list.splits)

lemma split_no_newline: "newline \<notin> set l \<Longrightarrow> split l = [l]"
  by (induction l) auto

lemma split_append_newline:
  "newline \<notin> set l \<Longrightarrow> split (l @ newline # rest) = l # split rest"
  by (induction l) auto

lemma split_join:
  "\<forall>l \<in> set ls. newline \<notin> set l \<Longrightarrow> ls \<noteq> [] \<Longrightarrow> split (join ls) = ls"
proof (induction ls rule: join.induct)
  case 1
  then show ?case by simp
next
  case (2 l)
  then show ?case by (simp add: split_no_newline)
next
  case (3 l v va)
  then show ?case by (simp add: split_append_newline)
qed

lemma trim_Nil [simp]: "trim [] = []"
  by (simp add: trim_def)

lemma trim_eq_Nil: "(trim s = []) = list_all isWhiteSpace s"
proof -
  let ?d = "dropWhile isWhiteSpace s"
  have "(\<forall>x \<in> set ?d. isWhiteSpace x) = (?d = [])"
  proof (cases "?d = []")
    case True
    then show ?thesis by (auto dest: set_dropWhileD)
  next
    case False
    then have "hd ?d \<in> set ?d" and "\<not> isWhiteSpace (hd ?d)"
      by (simp_all add: hd_dropWhile)
    with False show ?thesis by blast
  qed
  then have "(dropWhile isWhiteSpace (rev ?d) = []) = list_all isWhiteSpace s"
    by (simp add: dropWhile_eq_Nil_conv list_all_iff)
  then show ?thesis by (simp add: trim_def)
qed

lemma lines_of_join:
  assumes "\<forall>l \<in> set ls. newline \<notin> set l \<and> trim l \<noteq> []"
  shows "filter (\<lambda>line. trim line \<noteq> []) (split (join ls)) = ls"
proof (cases "ls = []")
  case True
  then show ?thesis by simp
next
  case False
  with assms have "split (join ls) = ls" by (simp add: split_join)
  with assms show ?thesis by (simp add: filter_id_conv)
qed

lemma fold_loadLine_entities:
  assumes "\<forall>e \<in> set es. JSON_parse R (stringify (entityItem e)) = Some (entityItem e)"
  shows "fold (loadLine R) (enumerate k (map (\<lambda>e. stringify (entityItem e)) es)) g =
         g\<lparr>entries := entries g @
              map (\<lambda>(i, e). loadEntity R i (Some (uuid e)) (Some (createdAt e)) (Some (updatedAt e))
                        \<lparr>EntityInput.name = name e, entityType = entityType e,
                         observations = observations e\<rparr>) (enumerate k es)\<rparr>"
  using assms
proof (induction es arbitrary: k g)
  case Nil
  then show ?case by simp
next
  case (Cons e es)
  then show ?case by (simp add: loadLine_def entityItem_def)
qed

lemma fold_loadLine_relations:
  assumes "\<forall>r \<in> set rs. JSON_parse R (stringify (relationItem r)) = Some (relationItem r)"
  shows "fold (loadLine R) (enumerate k (map (\<lambda>r. stringify (relationItem r)) rs)) g =
         g\<lparr>relations := relations g @
              map (\<lambda>(i, r). loadRelation R i (Some (uuid r)) (Some (createdAt r)) (Some (updatedAt r))
                        \<lparr>RelationInput.from = from r, to = to r, relationType = relationType r\<rparr>)
                (enumerate k rs)\<rparr>"
  using assms
proof (induction rs arbitrary: k g)
  case Nil
  then show ?case by simp
next
  case (Cons r rs)
  then show ?case by (simp add: loadLine_def relationItem_def)
qed

lemma enumerate_append:
  "enumerate k (xs @ ys) = enumerate k xs @ enumerate (k + length xs) ys"
  by (induction xs arbitrary: k) auto

lemma loadGraph_saved:
  assumes "jsonFaithful (JSON_parse R') (JSON_stringify R) graph"
  shows "loadGraph R' (File (join (graphLines R graph))) = Inr (reloaded R' graph)"
proof -
  have ok: "\<forall>l \<in> set (graphLines R graph). newline \<notin> set l \<and> trim l \<noteq> []"
    using assms by (auto simp: jsonFaithful_def graphLines_def list_all_iff)
  have pe: "\<forall>e \<in> set (entries graph).
              JSON_parse R' (JSON_stringify R (entityItem e)) = Some (entityItem e)"
    using assms by (auto simp: jsonFaithful_def list_all_iff)
  have pr: "\<forall>r \<in> set (relations graph).
              JSON_parse R' (JSON_stringify R (relationItem r)) = Some (relationItem r)"
    using assms by (auto simp: jsonFaithful_def list_all_iff)
  have "loadGraph R' (File (join (graphLines R graph))) =
        Inr (fold (loadLine R') (enumerate 0 (graphLines R graph)) emptyGraph)"
    by (simp add: loadGraph_def readFile_def lines_of_join [OF ok])
  also have "fold (loadLine R') (enumerate 0 (graphLines R graph)) emptyGraph = reloaded R' graph"
    by (simp add: graphLines_def enumerate_append fold_loadLine_entities [OF pe]
        fold_loadLine_relations [OF pr] emptyGraph_def reloaded_def)
  finally show ?thesis .
qed

lemma orElse_Some: "s \<noteq> [] \<Longrightarrow> orElse (Some s) d = s"
  by (simp add: orElse_def)

lemma map_enumerate_id:
  "(\<And>i x. x \<in> set xs \<Longrightarrow> f (i, x) = x) \<Longrightarrow> map f (enumerate k xs) = xs"
  by (induction xs arbitrary: k) auto

lemma reloaded_stamped:
  assumes "list_all stamped (entries graph)" and "list_all stamped (relations graph)"
  shows "reloaded R graph = graph"
proof -
  have "entries (reloaded R graph) = entries graph"
    unfolding reloaded_def using assms(1)
    by (simp add: map_enumerate_id list_all_iff stamped_def loadEntity_def orElse_Some)
  moreover have "relations (reloaded R graph) = relations graph"
    unfolding reloaded_def using assms(2)
    by (simp add: map_enumerate_id list_all_iff stamped_def loadRelation_def orElse_Some)
  ultimately show ?thesis by simp
qed

section \<open>Saving and reading back\<close>

lemmas record_defs = entityA_def entityB_def entityC_def relationAB_def relationBC_def
  relationAA_def relationXB_def entityA2_def john0_def john1_def worksAt0_def worksAt1_def
  doubled_def

lemma loadGraph_writable:
  assumes "loadGraph R b = Inr graph"
  shows "saveGraph R graph' b = Inr (File (join (graphLines R graph')))"
  using assms
  by (cases b) (simp_all add: loadGraph_def saveGraph_def readFile_def writeFile_def)

lemma saveGraph_File: "saveGraph R graph (File old) = Inr (File (join (graphLines R graph)))"
  by (simp add: saveGraph_def writeFile_def)

lemma saveGraph_NoFile: "saveGraph R graph NoFile = Inr (File (join (graphLines R graph)))"
  by (simp add: saveGraph_def writeFile_def)

lemma graphLines_cong:
  "JSON_stringify R' = JSON_stringify R \<Longrightarrow> graphLines R' graph = graphLines R graph"
  by (simp add: graphLines_def)

lemma faithful_chain:
  "jsonFaithful (JSON_parse demoRuntime) (JSON_stringify demoRuntime) chainGraph"
  by code_simp

lemma later_JSON [simp]:
  "JSON_parse laterRuntime = JSON_parse demoRuntime"
  "JSON_stringify laterRuntime = JSON_stringify demoRuntime"
  by (simp_all add: laterRuntime_def)

lemma stamped_chain:
  "list_all stamped (entries chainGraph)" "list_all stamped (relations chainGraph)"
  by (simp_all add: chainGraph_def stamped_def record_defs)

lemma stamped_records:
  "stamped entityA" "stamped entityB" "stamped entityC" "stamped relationAB"
  "stamped relationBC" "stamped relationAA" "stamped relationXB" "stamped entityA2"
  "stamped john0" "stamped john1" "stamped worksAt0" "stamped worksAt1"
  "stamped doubled"
  by (simp_all add: stamped_def record_defs)

lemma load_chain: "loadGraph demoRuntime (fileOf chainGraph) = Inr chainGraph"
  using loadGraph_saved [OF faithful_chain] reloaded_stamped [OF stamped_chain]
  by (simp add: fileOf_def)

lemma fileOf_eq: "File (join (graphLines demoRuntime graph)) = fileOf graph"
  by (simp add: fileOf_def)


section \<open>The persisted format\<close>

text \<open>
  Setting a property an object has with the value it has changes nothing; setting one
  it has not puts it last. So \<^verbatim>\<open>{ type: tag, ...e }\<close> is \<open>e\<close> with \<^verbatim>\<open>type\<close> moved
  to the front, and doing it twice is doing it once.
\<close>

lemma setProp_same: "map_of ps k = Some v \<Longrightarrow> setProp k v ps = ps"
  by (induction ps) (auto split: if_splits)

lemma setProp_new: "k \<notin> fst ` set ps \<Longrightarrow> setProp k v ps = ps @ [(k, v)]"
  by (induction ps) auto

lemma assign_Nil [simp]: "assign t [] = t"
  by (simp add: assign_def)

lemma assign_Cons: "assign t (p # s) = assign (setProp (fst p) (snd p) t) s"
  by (simp add: assign_def)

lemma map_of_filter_key:
  "map_of (filter (\<lambda>p. fst p \<noteq> k0) e) k = (if k = k0 then None else map_of e k)"
  by (induction e) auto

lemma assign_tag:
  assumes "distinct (map fst s)" "fst ` set s \<inter> fst ` set acc = {}" "k0 \<notin> fst ` set acc"
    and "map_of s k0 = None \<or> map_of s k0 = Some v"
  shows "assign ((k0, v) # acc) s = (k0, v) # acc @ filter (\<lambda>p. fst p \<noteq> k0) s"
  using assms
proof (induction s arbitrary: acc)
  case Nil
  then show ?case by simp
next
  case (Cons p s)
  show ?case
  proof (cases "fst p = k0")
    case True
    with Cons.prems have v: "snd p = v" by simp
    from True Cons.prems have none: "map_of s k0 = None"
      by (auto simp: map_of_eq_None_iff)
    have "assign ((k0, v) # acc) (p # s) = assign ((k0, v) # acc) s"
      using True v by (simp add: assign_Cons)
    also have "\<dots> = (k0, v) # acc @ filter (\<lambda>p. fst p \<noteq> k0) s"
      using Cons.prems none by (intro Cons.IH) auto
    finally show ?thesis using True by simp
  next
    case False
    from Cons.prems have new: "fst p \<notin> fst ` set acc" by auto
    from False Cons.prems have m: "map_of s k0 = None \<or> map_of s k0 = Some v" by simp
    have "assign ((k0, v) # acc) (p # s) = assign ((k0, v) # (acc @ [p])) s"
      using False new by (simp add: assign_Cons setProp_new)
    also have "\<dots> = (k0, v) # (acc @ [p]) @ filter (\<lambda>p. fst p \<noteq> k0) s"
      using Cons.prems m False by (intro Cons.IH) auto
    finally show ?thesis using False by simp
  qed
qed

lemma assign_fresh:
  "distinct (map fst s) \<Longrightarrow> fst ` set s \<inter> fst ` set t = {} \<Longrightarrow> assign t s = t @ s"
proof (induction s arbitrary: t)
  case Nil
  then show ?case by simp
next
  case (Cons p s)
  from Cons.prems have "fst p \<notin> fst ` set t" by auto
  then have "assign t (p # s) = assign (t @ [p]) s"
    by (simp add: assign_Cons setProp_new)
  also have "\<dots> = (t @ [p]) @ s"
    using Cons.prems by (intro Cons.IH) auto
  finally show ?case by simp
qed

lemma builtRecord_distinct: "builtRecord tag e \<Longrightarrow> distinct (map fst e)"
  by (simp add: builtRecord_def)

lemma builtRecord_type:
  "builtRecord tag e \<Longrightarrow>
     map_of e ''type'' = None \<or> map_of e ''type'' = Some (JString tag)"
  unfolding builtRecord_def by blast

lemma tagged_eq:
  assumes "builtRecord tag e"
  shows "tagged tag e = (''type'', JString tag) # filter (\<lambda>p. fst p \<noteq> ''type'') e"
proof -
  have "assign ((''type'', JString tag) # []) e =
        (''type'', JString tag) # [] @ filter (\<lambda>p. fst p \<noteq> ''type'') e"
    by (rule assign_tag [OF builtRecord_distinct [OF assms] _ _ builtRecord_type [OF assms]])
      simp_all
  then show ?thesis by (simp add: tagged_def)
qed

lemma distinct_filter_keys:
  "distinct (map fst e) \<Longrightarrow> distinct (map fst (filter Q e))"
  by (induction e) auto

lemma tagged_distinct:
  assumes "builtRecord tag e"
  shows "distinct (map fst (tagged tag e))"
  using assms by (auto simp: tagged_eq builtRecord_def distinct_filter_keys)

lemma map_of_tagged:
  assumes "builtRecord tag e"
  shows "map_of (tagged tag e) k = (if k = ''type'' then Some (JString tag) else map_of e k)"
  using assms by (simp add: tagged_eq map_of_filter_key)

lemma tagged_idem:
  assumes "builtRecord tag e"
  shows "tagged tag (tagged tag e) = tagged tag e"
proof -
  have t: "map_of (tagged tag e) ''type'' = None \<or>
           map_of (tagged tag e) ''type'' = Some (JString tag)"
    by (simp add: map_of_tagged [OF assms])
  have 1: "assign ((''type'', JString tag) # []) (tagged tag e) =
           (''type'', JString tag) # [] @ filter (\<lambda>p. fst p \<noteq> ''type'') (tagged tag e)"
    by (rule assign_tag [OF tagged_distinct [OF assms] _ _ t]) simp_all
  have 2: "filter (\<lambda>p. fst p \<noteq> ''type'') (tagged tag e) =
           filter (\<lambda>p. fst p \<noteq> ''type'') e"
    by (simp add: tagged_eq [OF assms])
  have "tagged tag (tagged tag e) = assign [(''type'', JString tag)] (tagged tag e)"
    by (rule tagged_def)
  also have "\<dots> = (''type'', JString tag) # filter (\<lambda>p. fst p \<noteq> ''type'') (tagged tag e)"
    using 1 by simp
  also have "\<dots> = (''type'', JString tag) # filter (\<lambda>p. fst p \<noteq> ''type'') e"
    by (simp only: 2)
  also have "\<dots> = tagged tag e"
    by (rule tagged_eq [OF assms, symmetric])
  finally show ?thesis .
qed

lemma orGenerated_truthy: "truthy v \<Longrightarrow> orGenerated (Some v) d = v"
  by (simp add: orGenerated_def)

lemma builtRecord_stamp:
  assumes "builtRecord tag e" "k \<in> {''uuid'', ''createdAt'', ''updatedAt''}"
  shows "\<exists>v. map_of e k = Some v \<and> truthy v"
  using assms by (auto simp: builtRecord_def split: option.splits)

lemma loadObject_tagged:
  assumes "builtRecord tag e"
  shows "loadObject R i (tagged tag e) = tagged tag e"
proof -
  let ?T = "tagged tag e"
  have a: "assign [] ?T = ?T"
    using assign_fresh [of ?T "[]"] tagged_distinct [OF assms] by simp
  have s: "setProp k (orGenerated (map_of ?T k) d) ?T = ?T"
    if "k \<in> {''uuid'', ''createdAt'', ''updatedAt''}" for k d
  proof -
    from builtRecord_stamp [OF assms that] obtain v where v: "map_of e k = Some v" "truthy v"
      by blast
    from that have "k \<noteq> ''type''" by auto
    then have "map_of ?T k = Some v" using v by (simp add: map_of_tagged [OF assms])
    then show ?thesis using v by (simp add: orGenerated_truthy setProp_same)
  qed
  show ?thesis
    unfolding loadObject_def a by (simp add: s)
qed

lemma fold_loadObjectLine_entities:
  assumes "\<forall>e \<in> set es. builtRecord ''entity'' e \<and>
             parseJSON P (stringifyJSON P (JObject (tagged ''entity'' e))) =
               Some (JObject (tagged ''entity'' e))"
  shows "fold (loadObjectLine P R)
           (enumerate k (map (\<lambda>e. stringifyJSON P (JObject (tagged ''entity'' e))) es)) g =
         g\<lparr>entryObjects := entryObjects g @ map (tagged ''entity'') es\<rparr>"
  using assms
proof (induction es arbitrary: k g)
  case Nil
  then show ?case by simp
next
  case (Cons e es)
  then show ?case
    by (simp add: loadObjectLine_def map_of_tagged loadObject_tagged)
qed

lemma fold_loadObjectLine_relations:
  assumes "\<forall>r \<in> set rs. builtRecord ''relation'' r \<and>
             parseJSON P (stringifyJSON P (JObject (tagged ''relation'' r))) =
               Some (JObject (tagged ''relation'' r))"
  shows "fold (loadObjectLine P R)
           (enumerate k (map (\<lambda>r. stringifyJSON P (JObject (tagged ''relation'' r))) rs)) g =
         g\<lparr>relationObjects := relationObjects g @ map (tagged ''relation'') rs\<rparr>"
  using assms
proof (induction rs arbitrary: k g)
  case Nil
  then show ?case by simp
next
  case (Cons r rs)
  then show ?case
    by (simp add: loadObjectLine_def map_of_tagged loadObject_tagged)
qed

lemma objectLines_taggedGraph:
  assumes "list_all (builtRecord ''entity'') (entryObjects G)"
    and "list_all (builtRecord ''relation'') (relationObjects G)"
  shows "objectLines P (taggedGraph G) = objectLines P G"
  using assms
  by (simp add: objectLines_def taggedGraph_def list_all_iff tagged_idem comp_def)

lemma loadObjects_saved:
  assumes "list_all (builtRecord ''entity'') (entryObjects G)"
    and "list_all (builtRecord ''relation'') (relationObjects G)"
    and "objectsFaithful P G"
  shows "loadObjects P R (File (join (objectLines P G))) = Inr (taggedGraph G)"
proof -
  have ok: "\<forall>l \<in> set (objectLines P G). newline \<notin> set l \<and> trim l \<noteq> []"
    using assms(3) by (auto simp: objectsFaithful_def objectLines_def taggedGraph_def list_all_iff)
  have pe: "\<forall>e \<in> set (entryObjects G). builtRecord ''entity'' e \<and>
              parseJSON P (stringifyJSON P (JObject (tagged ''entity'' e))) =
                Some (JObject (tagged ''entity'' e))"
    using assms(1,3) by (auto simp: objectsFaithful_def taggedGraph_def list_all_iff)
  have pr: "\<forall>r \<in> set (relationObjects G). builtRecord ''relation'' r \<and>
              parseJSON P (stringifyJSON P (JObject (tagged ''relation'' r))) =
                Some (JObject (tagged ''relation'' r))"
    using assms(2,3) by (auto simp: objectsFaithful_def taggedGraph_def list_all_iff)
  have "loadObjects P R (File (join (objectLines P G))) =
        Inr (fold (loadObjectLine P R) (enumerate 0 (objectLines P G))
               \<lparr>entryObjects = [], relationObjects = []\<rparr>)"
    by (simp add: loadObjects_def readFile_def lines_of_join [OF ok])
  also have "fold (loadObjectLine P R) (enumerate 0 (objectLines P G))
               \<lparr>entryObjects = [], relationObjects = []\<rparr> = taggedGraph G"
    by (simp add: objectLines_def enumerate_append fold_loadObjectLine_entities [OF pe]
        fold_loadObjectLine_relations [OF pr] taggedGraph_def)
  finally show ?thesis .
qed

lemma saveObjects_result:
  "saveObjects P G b = Inr b' \<Longrightarrow> b' = File (join (objectLines P G))"
  by (auto simp: saveObjects_def writeFile_def split: backing.splits)

lemma withTag_tagged:
  assumes "builtRecord tag e"
  shows "withTag tag e (tagged tag e)"
proof -
  note d = builtRecord_distinct [OF assms] and t = builtRecord_type [OF assms]
  have "insert (''type'', JString tag) (set (filter (\<lambda>p. fst p \<noteq> ''type'') e)) =
        insert (''type'', JString tag) (set e)"
  proof (rule set_eqI)
    fix p :: "string \<times> json"
    obtain k v where p: "p = (k, v)" by (cases p)
    show "p \<in> insert (''type'', JString tag) (set (filter (\<lambda>p. fst p \<noteq> ''type'') e)) \<longleftrightarrow>
          p \<in> insert (''type'', JString tag) (set e)"
    proof (cases "k = ''type'' \<and> (k, v) \<in> set e")
      case True
      then have "(''type'', v) \<in> set e" by blast
      then have "map_of e ''type'' = Some v" using d by simp
      with t have "v = JString tag" by auto
      with True p show ?thesis by simp
    next
      case False
      with p show ?thesis by auto
    qed
  qed
  then show ?thesis
    unfolding withTag_def tagged_eq [OF assms] by (simp del: set_filter)
qed

lemma built_mixed:
  "list_all (builtRecord ''entity'') (entryObjects mixedGraph)"
  "list_all (builtRecord ''relation'') (relationObjects mixedGraph)"
  by (simp_all add: mixedGraph_def builtRecord_def johnObject_def linkObject_def)

lemma built_created:
  "list_all (builtRecord ''entity'') (entryObjects createdGraph)"
  "list_all (builtRecord ''relation'') (relationObjects createdGraph)"
  by (simp_all add: createdGraph_def builtRecord_def johnObject_def)

lemma tagged_john: "tagged ''entity'' johnObject = johnTagged"
  by (simp add: tagged_def assign_def johnObject_def johnTagged_def)

lemma tagged_link: "tagged ''relation'' linkObject = linkObject"
  by (simp add: tagged_def assign_def linkObject_def)

lemma taggedGraph_mixed:
  "taggedGraph mixedGraph = \<lparr>entryObjects = [johnTagged], relationObjects = [linkObject]\<rparr>"
  by (simp add: taggedGraph_def mixedGraph_def tagged_john tagged_link)

lemma taggedGraph_created:
  "taggedGraph createdGraph = \<lparr>entryObjects = [johnTagged], relationObjects = []\<rparr>"
  by (simp add: taggedGraph_def createdGraph_def tagged_john)

lemma faithful_mixed: "objectsFaithful demoPlatform mixedGraph"
  by code_simp

lemma faithful_created: "objectsFaithful demoPlatform createdGraph"
  by code_simp

lemma stringify_john: "stringifyJSON demoPlatform (JObject johnTagged) = johnLine"
  by code_simp

lemma stringify_link: "stringifyJSON demoPlatform (JObject linkObject) = linkLine"
  by code_simp

lemma objectLines_mixed: "objectLines demoPlatform mixedGraph = [johnLine, linkLine]"
  by (simp add: objectLines_def mixedGraph_def tagged_john tagged_link stringify_john
      stringify_link)

lemma objectLines_created: "objectLines demoPlatform createdGraph = [johnLine]"
  by (simp add: objectLines_def createdGraph_def tagged_john stringify_john)

lemma saveObjects_NoFile:
  "saveObjects P graph NoFile = Inr (File (join (objectLines P graph)))"
  by (simp add: saveObjects_def writeFile_def)





section \<open>Deleting entities\<close>

text \<open>
  C3. On the graph it loaded, \<^verbatim>\<open>deleteEntities\<close> saves a graph whose entities are
  exactly the loaded entities with a name outside the input, and whose relations are
  exactly the loaded relations with neither \<^verbatim>\<open>from\<close> nor \<^verbatim>\<open>to\<close> in the input: every
  named entity is gone, every relation touching a named entity is gone, every other
  entity remains.
\<close>

theorem deleteEntities_cascade:
  assumes "loadGraph R b = Inr graph"
  shows "\<exists>graph'. deleteEntities R b entityNames = Inr (File (join (graphLines R graph')))
           \<and> (\<forall>e. e \<in> set (entries graph') \<longleftrightarrow> e \<in> set (entries graph) \<and> name e \<notin> set entityNames)
           \<and> (\<forall>r. r \<in> set (relations graph') \<longleftrightarrow>
                  r \<in> set (relations graph) \<and> from r \<notin> set entityNames \<and> to r \<notin> set entityNames)"
proof -
  let ?g = "graph\<lparr>entries := filter (\<lambda>e. name e \<notin> set entityNames) (entries graph),
                relations := filter (\<lambda>r. from r \<notin> set entityNames \<and> to r \<notin> set entityNames)
                               (relations graph)\<rparr>"
  have "deleteEntities R b entityNames = Inr (File (join (graphLines R ?g)))"
    by (simp add: deleteEntities_def assms loadGraph_writable [OF assms])
  moreover have "\<forall>e. e \<in> set (entries ?g) \<longleftrightarrow> e \<in> set (entries graph) \<and> name e \<notin> set entityNames"
    by simp
  moreover have "\<forall>r. r \<in> set (relations ?g) \<longleftrightarrow>
                  r \<in> set (relations graph) \<and> from r \<notin> set entityNames \<and> to r \<notin> set entityNames"
    by simp
  ultimately show ?thesis by blast
qed

theorem deleteEntities_cascade_witness:
  "loadGraph demoRuntime (fileOf chainGraph) = Inr chainGraph \<and>
   (\<exists>graph'. deleteEntities demoRuntime (fileOf chainGraph) [''A''] =
                Inr (File (join (graphLines demoRuntime graph'))) \<and>
      entityA \<notin> set (entries graph') \<and> entityB \<in> set (entries graph') \<and>
      entityC \<in> set (entries graph') \<and>
      relationAB \<notin> set (relations graph') \<and> relationBC \<in> set (relations graph'))"
proof -
  from deleteEntities_cascade [OF load_chain, of "[''A'']"]
  obtain graph' where
    d: "deleteEntities demoRuntime (fileOf chainGraph) [''A''] =
          Inr (File (join (graphLines demoRuntime graph')))"
    and e: "\<And>e. e \<in> set (entries graph') \<longleftrightarrow> e \<in> set (entries chainGraph) \<and> name e \<notin> set [''A'']"
    and r: "\<And>r. r \<in> set (relations graph') \<longleftrightarrow>
              r \<in> set (relations chainGraph) \<and> from r \<notin> set [''A''] \<and> to r \<notin> set [''A'']"
    by blast
  have "entityA \<notin> set (entries graph')" "entityB \<in> set (entries graph')"
    "entityC \<in> set (entries graph')"
    by (simp_all add: e chainGraph_def record_defs)
  moreover have "relationAB \<notin> set (relations graph')" "relationBC \<in> set (relations graph')"
    by (simp_all add: r chainGraph_def record_defs)
  ultimately show ?thesis using d load_chain by blast
qed


section \<open>The next offset of a page\<close>

text \<open>
  C10. \<^verbatim>\<open>readGraph\<close> returns \<^verbatim>\<open>nextOffset = offset + limit\<close> whatever
  \<^verbatim>\<open>hasMore\<close> is; \<^verbatim>\<open>searchNodes\<close> returns \<^verbatim>\<open>offset + limit\<close> when one of its two
  matched lists is longer than \<^verbatim>\<open>offset + limit\<close>, which is when \<^verbatim>\<open>hasMore\<close> holds,
  and \<^verbatim>\<open>undefined\<close> otherwise.
\<close>

theorem nextOffset_readGraph_searchNodes:
  assumes "loadGraph R b = Inr graph"
  shows "(\<exists>resp. readGraph R b p flt = Inr resp \<and> nextOffset resp = Some (offset p + limit p) \<and>
            hasMore resp =
              (max (int (length (fst (applyFilters R (entries graph) (relations graph) flt))))
                   (int (length (snd (applyFilters R (entries graph) (relations graph) flt))))
                 > offset p + limit p))
       \<and> (\<exists>resp. searchNodes R b q p = Inr resp \<and>
            hasMore resp =
              (offset p + limit p < int (length (matchedEntities graph q)) \<or>
               offset p + limit p < int (length (matchedRelations graph q))) \<and>
            nextOffset resp =
              (if offset p + limit p < int (length (matchedEntities graph q)) \<or>
                  offset p + limit p < int (length (matchedRelations graph q))
               then Some (offset p + limit p) else None))"
  by (simp add: readGraph_def searchNodes_def assms Let_def split: prod.splits)

theorem nextOffset_readGraph_searchNodes_witness:
  "loadGraph demoRuntime (fileOf chainGraph) = Inr chainGraph \<and>
   (\<exists>resp. readGraph demoRuntime (fileOf chainGraph) \<lparr>offset = 0, limit = 1000\<rparr> noFilter = Inr resp \<and>
      nextOffset resp = Some 1000 \<and> hasMore resp = False) \<and>
   (\<exists>resp. searchNodes demoRuntime (fileOf chainGraph) ''node'' \<lparr>offset = 0, limit = 2\<rparr> = Inr resp \<and>
      nextOffset resp = None \<and> hasMore resp = False) \<and>
   (\<exists>resp. searchNodes demoRuntime (fileOf chainGraph) ''node'' \<lparr>offset = 0, limit = 1\<rparr> = Inr resp \<and>
      nextOffset resp = Some 1 \<and> hasMore resp = True)"
proof -
  have f: "applyFilters demoRuntime (entries chainGraph) (relations chainGraph) noFilter =
           (entries chainGraph, relations chainGraph)"
    by (simp add: applyFilters_def noFilter_def whenList_def whenString_def)
  have len: "length (entries chainGraph) = 3" "length (relations chainGraph) = 2"
    by (simp_all add: chainGraph_def)
  have me: "length (matchedEntities chainGraph ''node'') = 2"
    by code_simp
  have mr: "length (matchedRelations chainGraph ''node'') = 1"
    by code_simp
  note t = nextOffset_readGraph_searchNodes [OF load_chain]
  have "\<exists>resp. readGraph demoRuntime (fileOf chainGraph) \<lparr>offset = 0, limit = 1000\<rparr> noFilter = Inr resp \<and>
      nextOffset resp = Some 1000 \<and> hasMore resp = False"
    using t [where p = "\<lparr>offset = 0, limit = 1000\<rparr>" and flt = noFilter and q = "''node''",
        THEN conjunct1]
    by (simp add: f len)
  moreover have "\<exists>resp. searchNodes demoRuntime (fileOf chainGraph) ''node'' \<lparr>offset = 0, limit = 2\<rparr> = Inr resp \<and>
      nextOffset resp = None \<and> hasMore resp = False"
    using t [where p = "\<lparr>offset = 0, limit = 2\<rparr>" and flt = noFilter and q = "''node''",
        THEN conjunct2]
    by (auto simp: me mr)
  moreover have "\<exists>resp. searchNodes demoRuntime (fileOf chainGraph) ''node'' \<lparr>offset = 0, limit = 1\<rparr> = Inr resp \<and>
      nextOffset resp = Some 1 \<and> hasMore resp = True"
    using t [where p = "\<lparr>offset = 0, limit = 1\<rparr>" and flt = noFilter and q = "''node''",
        THEN conjunct2]
    by (auto simp: me mr)
  ultimately show ?thesis using load_chain by blast
qed

section \<open>The frame of the observation methods\<close>

lemma framed_refl: "framed names es es"
  by (simp add: framed_def list_all2_same)

lemma framed_trans:
  assumes "framed names es es'" and "framed names es' es''"
  shows "framed names es es''"
  using assms unfolding framed_def
  by (rule list_all2_trans [rotated]) auto

lemma framed_mono:
  assumes "framed names es es'" and "set names \<subseteq> set names'"
  shows "framed names' es es'"
  using assms unfolding framed_def
  by (auto elim!: list_all2_mono)

lemma framed_updateFirst:
  assumes "n \<in> set names"
      and "\<And>e. name (f e) = name e \<and> uuid (f e) = uuid e \<and> createdAt (f e) = createdAt e \<and>
                entityType (f e) = entityType e"
  shows "framed names es (updateFirst (\<lambda>e. name e = n) f es)"
proof (induction es)
  case Nil
  then show ?case by (simp add: framed_def)
next
  case (Cons e es)
  have "framed names es es" by (rule framed_refl)
  with Cons assms show ?case by (auto simp: framed_def)
qed

lemma addObservationsCallback_frame:
  assumes "addObservationsCallback ts graph ob = Inr (result, graph')"
  shows "relations graph' = relations graph \<and>
         framed (ObservationAddition.entityName ob # names) (entries graph) (entries graph')"
  using assms
  by (auto simp: addObservationsCallback_def Let_def framed_refl framed_updateFirst
      split: option.splits if_splits)

lemma addObservationsMap_frame:
  assumes "addObservationsMap ts graph obs = Inr (results, graph')"
  shows "relations graph' = relations graph \<and>
         framed (map ObservationAddition.entityName obs) (entries graph) (entries graph')"
  using assms
proof (induction obs arbitrary: graph results)
  case Nil
  then show ?case by (simp add: framed_refl)
next
  case (Cons ob obs)
  let ?ns = "map ObservationAddition.entityName (ob # obs)"
  from Cons.prems obtain result g1 rs where
    first: "addObservationsCallback ts graph ob = Inr (result, g1)"
    and rest: "addObservationsMap ts g1 obs = Inr (rs, graph')"
    by (auto simp: bindE_def split: sum.splits)
  from addObservationsCallback_frame [OF first]
  have step: "relations g1 = relations graph" "framed ?ns (entries graph) (entries g1)"
    by simp_all
  from Cons.IH [OF rest] have
    "relations graph' = relations g1" "framed ?ns (entries g1) (entries graph')"
    by (auto elim: framed_mono)
  with step show ?case by (auto intro: framed_trans)
qed

lemma deleteObservationsCallback_frame:
  "relations (deleteObservationsCallback ts graph d) = relations graph \<and>
   framed (ObservationDeletion.entityName d # names) (entries graph)
     (entries (deleteObservationsCallback ts graph d))"
  by (auto simp: deleteObservationsCallback_def Let_def framed_refl framed_updateFirst
      split: option.splits)

lemma deleteObservationsEach_frame:
  "relations (deleteObservationsEach ts graph ds) = relations graph \<and>
   framed (map ObservationDeletion.entityName ds) (entries graph)
     (entries (deleteObservationsEach ts graph ds))"
proof (induction ds arbitrary: graph)
  case Nil
  then show ?case by (simp add: framed_refl)
next
  case (Cons d ds)
  let ?ns = "map ObservationDeletion.entityName (d # ds)"
  let ?g1 = "deleteObservationsCallback ts graph d"
  from deleteObservationsCallback_frame [of ts graph d]
  have step: "relations ?g1 = relations graph" "framed ?ns (entries graph) (entries ?g1)"
    by simp_all
  from Cons.IH [of ?g1] have
    "relations (deleteObservationsEach ts ?g1 ds) = relations ?g1"
    "framed ?ns (entries ?g1) (entries (deleteObservationsEach ts ?g1 ds))"
    by (auto elim: framed_mono)
  with step show ?case by (auto intro: framed_trans)
qed

text \<open>
  C9. \<^verbatim>\<open>addObservations\<close>, when it returns, and \<^verbatim>\<open>deleteObservations\<close> save a graph
  with the relations of the loaded graph and with its entities in place, one for one:
  every entity keeps its name, identity, creation time and type, and an entity whose
  name is not an \<^verbatim>\<open>entityName\<close> of the batch is saved as it was loaded.
\<close>

theorem observations_frame:
  assumes "loadGraph R b = Inr graph"
  shows "(\<forall>results b'. addObservations R b adds = Inr (results, b') \<longrightarrow>
            (\<exists>graph'. b' = File (join (graphLines R graph')) \<and>
               relations graph' = relations graph \<and>
               framed (map ObservationAddition.entityName adds) (entries graph) (entries graph')))
       \<and> (\<exists>graph'. deleteObservations R b dels = Inr (File (join (graphLines R graph'))) \<and>
               relations graph' = relations graph \<and>
               framed (map ObservationDeletion.entityName dels) (entries graph) (entries graph'))"
proof (intro conjI allI impI)
  fix results b'
  assume a: "addObservations R b adds = Inr (results, b')"
  then obtain graph' where
    m: "addObservationsMap (timestamp R) graph adds = Inr (results, graph')"
    and b': "b' = File (join (graphLines R graph'))"
    by (auto simp: addObservations_def assms bindE_def loadGraph_writable [OF assms]
        split: sum.splits)
  from addObservationsMap_frame [OF m] b'
  show "\<exists>graph'. b' = File (join (graphLines R graph')) \<and>
               relations graph' = relations graph \<and>
               framed (map ObservationAddition.entityName adds) (entries graph) (entries graph')"
    by blast
next
  have "deleteObservations R b dels =
        Inr (File (join (graphLines R (deleteObservationsEach (timestamp R) graph dels))))"
    by (simp add: deleteObservations_def assms loadGraph_writable [OF assms])
  with deleteObservationsEach_frame [of "timestamp R" graph dels]
  show "\<exists>graph'. deleteObservations R b dels = Inr (File (join (graphLines R graph'))) \<and>
               relations graph' = relations graph \<and>
               framed (map ObservationDeletion.entityName dels) (entries graph) (entries graph')"
    by blast
qed

lemma addSecond_chain:
  "addObservationsMap (timestamp demoRuntime) chainGraph [addSecond] =
     Inr ([\<lparr>ObservationResult.entityName = ''A'', addedObservations = [''second'']\<rparr>], chainGraph2)"
  by (simp add: addObservationsCallback_def chainGraph_def chainGraph2_def addSecond_def
      record_defs demoRuntime_def Let_def)

lemma addObservations_chain:
  "addObservations demoRuntime (fileOf chainGraph) [addSecond] =
     Inr ([\<lparr>ObservationResult.entityName = ''A'', addedObservations = [''second'']\<rparr>],
          fileOf chainGraph2)"
  by (simp add: addObservations_def load_chain addSecond_chain loadGraph_writable [OF load_chain]
      fileOf_eq del: addObservationsMap.simps)

theorem observations_frame_witness:
  "loadGraph demoRuntime (fileOf chainGraph) = Inr chainGraph \<and>
   addObservations demoRuntime (fileOf chainGraph) [addSecond] =
     Inr ([\<lparr>ObservationResult.entityName = ''A'', addedObservations = [''second'']\<rparr>],
          fileOf chainGraph2) \<and>
   (\<exists>graph'. fileOf chainGraph2 = File (join (graphLines demoRuntime graph')) \<and>
      relations graph' = relations chainGraph \<and>
      framed [''A''] (entries chainGraph) (entries graph')) \<and>
   (\<exists>graph'. deleteObservations demoRuntime (fileOf chainGraph) [deleteFirst] =
                Inr (File (join (graphLines demoRuntime graph'))) \<and>
      relations graph' = relations chainGraph \<and>
      framed [''A''] (entries chainGraph) (entries graph'))"
proof -
  note t = observations_frame [OF load_chain, where adds = "[addSecond]" and dels = "[deleteFirst]"]
  from t [THEN conjunct1] addObservations_chain
  have "\<exists>graph'. fileOf chainGraph2 = File (join (graphLines demoRuntime graph')) \<and>
      relations graph' = relations chainGraph \<and>
      framed [''A''] (entries chainGraph) (entries graph')"
    by (simp add: addSecond_def)
  moreover from t [THEN conjunct2]
  have "\<exists>graph'. deleteObservations demoRuntime (fileOf chainGraph) [deleteFirst] =
                Inr (File (join (graphLines demoRuntime graph'))) \<and>
      relations graph' = relations chainGraph \<and>
      framed [''A''] (entries chainGraph) (entries graph')"
    by (simp add: deleteFirst_def)
  ultimately show ?thesis using load_chain addObservations_chain by blast
qed

section \<open>The relations of a search\<close>

lemma set_slice: "set (slice xs i j) \<subseteq> set xs"
  by (auto simp: slice_def Let_def dest: in_set_takeD in_set_dropD)

lemma slice_all: "int (length xs) \<le> j \<Longrightarrow> slice xs 0 j = xs"
  by (simp add: slice_def Let_def)

lemma in_matchedEntities:
  "e \<in> set (matchedEntities graph query) \<longleftrightarrow>
     e \<in> set (entries graph) \<and>
     (includes (toLowerCase (name e)) (toLowerCase query) \<or>
      includes (toLowerCase (entityType e)) (toLowerCase query) \<or>
      (\<exists>ob \<in> set (observations e). includes (toLowerCase ob) (toLowerCase query)))"
  by (auto simp: matchedEntities_def Let_def list_ex_iff)

lemma in_matchedRelations:
  "r \<in> set (matchedRelations graph query) \<longleftrightarrow>
     r \<in> set (relations graph) \<and>
     (includes (toLowerCase (from r)) (toLowerCase query) \<or>
      includes (toLowerCase (to r)) (toLowerCase query) \<or>
      includes (toLowerCase (relationType r)) (toLowerCase query) \<or>
      (from r \<in> name ` set (matchedEntities graph query) \<and>
       to r \<in> name ` set (matchedEntities graph query)))"
  by (auto simp: matchedRelations_def Let_def)

text \<open>
  C7, as amended. In \<^verbatim>\<open>searchNodes\<close> a relation of the graph is matched if and only
  if its \<^verbatim>\<open>from\<close>, its \<^verbatim>\<open>to\<close> or its \<^verbatim>\<open>relationType\<close> contains the query, both
  in lower case, or both of its endpoints are names of matched entities; an entity is
  matched when its name, its type or one of its observations contains the query. The
  result holds the matched relations from \<^verbatim>\<open>offset\<close> to \<^verbatim>\<open>offset + limit\<close>: every
  relation of the result is matched, and all the matched ones are in the result when
  the page starts at 0 and is long enough.
\<close>

theorem searchNodes_relations:
  assumes "loadGraph R b = Inr graph"
  shows "\<exists>resp. searchNodes R b query p = Inr resp \<and>
     relations (items resp) =
       slice (matchedRelations graph query) (offset p) (offset p + limit p) \<and>
     entries (items resp) =
       slice (matchedEntities graph query) (offset p) (offset p + limit p) \<and>
     (\<forall>r. r \<in> set (matchedRelations graph query) \<longleftrightarrow>
        r \<in> set (relations graph) \<and>
        (includes (toLowerCase (from r)) (toLowerCase query) \<or>
         includes (toLowerCase (to r)) (toLowerCase query) \<or>
         includes (toLowerCase (relationType r)) (toLowerCase query) \<or>
         (from r \<in> name ` set (matchedEntities graph query) \<and>
          to r \<in> name ` set (matchedEntities graph query)))) \<and>
     (\<forall>e. e \<in> set (matchedEntities graph query) \<longleftrightarrow>
        e \<in> set (entries graph) \<and>
        (includes (toLowerCase (name e)) (toLowerCase query) \<or>
         includes (toLowerCase (entityType e)) (toLowerCase query) \<or>
         (\<exists>ob \<in> set (observations e). includes (toLowerCase ob) (toLowerCase query)))) \<and>
     set (relations (items resp)) \<subseteq> set (matchedRelations graph query) \<and>
     (offset p = 0 \<and> int (length (matchedRelations graph query)) \<le> limit p \<longrightarrow>
        relations (items resp) = matchedRelations graph query)"
proof -
  let ?resp = "\<lparr>items = \<lparr>entries = slice (matchedEntities graph query) (offset p)
                                      (offset p + limit p),
                          relations = slice (matchedRelations graph query) (offset p)
                                        (offset p + limit p)\<rparr>,
               total = max (int (length (matchedEntities graph query)))
                         (int (length (matchedRelations graph query))),
               hasMore = (offset p + limit p < int (length (matchedEntities graph query)) \<or>
                          offset p + limit p < int (length (matchedRelations graph query))),
               nextOffset = (if offset p + limit p < int (length (matchedEntities graph query)) \<or>
                                offset p + limit p < int (length (matchedRelations graph query))
                             then Some (offset p + limit p) else None)\<rparr>"
  have s: "searchNodes R b query p = Inr ?resp"
    by (simp add: searchNodes_def assms Let_def)
  have sub: "set (relations (items ?resp)) \<subseteq> set (matchedRelations graph query)"
    by (simp add: set_slice)
  have full: "offset p = 0 \<and> int (length (matchedRelations graph query)) \<le> limit p \<longrightarrow>
        relations (items ?resp) = matchedRelations graph query"
    by (simp add: slice_all)
  show ?thesis
    apply (rule exI [of _ ?resp])
    apply (intro conjI)
    using s apply simp
    apply simp
    apply simp
    using in_matchedRelations apply blast
    using in_matchedEntities apply blast
    using sub apply blast
    using full apply blast
    done
qed

lemma matched_node:
  "matchedEntities chainGraph ''node'' = [entityA, entityB]"
  "matchedRelations chainGraph ''node'' = [relationAB]"
  by code_simp+

lemma matched_links:
  "matchedEntities chainGraph ''links'' = []"
  "matchedRelations chainGraph ''links'' = [relationAB, relationBC]"
  by code_simp+

theorem searchNodes_relations_witness:
  "loadGraph demoRuntime (fileOf chainGraph) = Inr chainGraph \<and>
   (\<exists>resp. searchNodes demoRuntime (fileOf chainGraph) ''node'' \<lparr>offset = 0, limit = 20\<rparr> = Inr resp \<and>
      entries (items resp) = [entityA, entityB] \<and> relations (items resp) = [relationAB])"
proof -
  from searchNodes_relations [OF load_chain, where query = "''node''" and p = "\<lparr>offset = 0, limit = 20\<rparr>"]
  obtain resp where
    "searchNodes demoRuntime (fileOf chainGraph) ''node'' \<lparr>offset = 0, limit = 20\<rparr> = Inr resp"
    "relations (items resp) = slice (matchedRelations chainGraph ''node'') 0 20"
    "entries (items resp) = slice (matchedEntities chainGraph ''node'') 0 20"
    by auto
  then show ?thesis using load_chain by (auto simp: matched_node slice_all)
qed

text \<open>
  C7 as stated fails on a page: with two relations of type \<^verbatim>\<open>links\<close>, the query
  \<^verbatim>\<open>links\<close> and a page of one, the second relation matches on its type and is not in
  the result.
\<close>

theorem searchNodes_page_counterexample:
  "relationBC \<in> set (relations chainGraph) \<and>
   includes (toLowerCase (relationType relationBC)) (toLowerCase ''links'') \<and>
   searchNodes demoRuntime (fileOf chainGraph) ''links'' \<lparr>offset = 0, limit = 1\<rparr> =
     Inr \<lparr>items = \<lparr>entries = [], relations = [relationAB]\<rparr>, total = 2, hasMore = True,
          nextOffset = Some 1\<rparr> \<and>
   relationBC \<noteq> relationAB"
proof -
  have "includes (toLowerCase (relationType relationBC)) (toLowerCase ''links'')"
    by code_simp
  moreover have "searchNodes demoRuntime (fileOf chainGraph) ''links'' \<lparr>offset = 0, limit = 1\<rparr> =
     Inr \<lparr>items = \<lparr>entries = [], relations = [relationAB]\<rparr>, total = 2, hasMore = True,
          nextOffset = Some 1\<rparr>"
    by (simp add: searchNodes_def load_chain matched_links slice_def)
  ultimately show ?thesis by (simp add: chainGraph_def relationAB_def relationBC_def)
qed

section \<open>Related nodes\<close>

lemma expandLevels_stop:
  "\<not> (currentDepth < depth \<and> length nodes > 0) \<Longrightarrow>
   expandLevels graph names nodes currentDepth depth = names"
  by (subst expandLevels.simps) auto

lemma expandLevels_step:
  "currentDepth < depth \<Longrightarrow> nodes \<noteq> [] \<Longrightarrow>
   expandLevels graph names nodes currentDepth depth =
     expandLevels graph (fst (fold (visitNode graph) nodes (names, [])))
       (snd (fold (visitNode graph) nodes (names, []))) (currentDepth + 1) depth"
  by (subst expandLevels.simps) (simp add: Let_def)

lemma neighbours_Un: "neighbours g (A \<union> B) = neighbours g A \<union> neighbours g B"
  by (auto simp: neighbours_def)

lemma neighbours_empty [simp]: "neighbours g {} = {}"
  by (simp add: neighbours_def)

lemma neighbours_mono: "A \<subseteq> B \<Longrightarrow> neighbours g A \<subseteq> neighbours g B"
  by (auto simp: neighbours_def)

lemma visitRelation_sets:
  "set (fst (visitRelation r st)) = set (fst st) \<union> {from r, to r}"
  "set (snd (visitRelation r st)) = set (snd st) \<union> ({from r, to r} - set (fst st))"
  by (auto simp: visitRelation_def Let_def)

lemma level_sets:
  fixes A S e E :: "'a set"
  assumes "F = (A \<union> e) \<union> E" and "S' = S \<union> (e - A) \<union> (E - (A \<union> e))"
  shows "F = A \<union> (e \<union> E) \<and> S' = S \<union> ((e \<union> E) - A)"
  using assms by blast

lemma fold_visitRelation_sets:
  "set (fst (fold visitRelation rs st)) = set (fst st) \<union> (\<Union>r \<in> set rs. {from r, to r}) \<and>
   set (snd (fold visitRelation rs st)) =
     set (snd st) \<union> ((\<Union>r \<in> set rs. {from r, to r}) - set (fst st))"
proof (induction rs arbitrary: st)
  case Nil
  then show ?case by simp
next
  case (Cons r rs)
  let ?e = "{from r, to r}"
  let ?E = "\<Union>r \<in> set rs. {from r, to r}"
  have all: "(\<Union>r \<in> set (r # rs). {from r, to r}) = ?e \<union> ?E"
    by simp
  from Cons.IH [of "visitRelation r st"]
  have f: "set (fst (fold visitRelation (r # rs) st)) = (set (fst st) \<union> ?e) \<union> ?E"
    and s: "set (snd (fold visitRelation (r # rs) st)) =
           set (snd st) \<union> (?e - set (fst st)) \<union> (?E - (set (fst st) \<union> ?e))"
    by (simp_all only: fold_simps visitRelation_sets)
  show ?case
    unfolding all by (rule level_sets [OF f s])
qed

lemma touching_ends:
  "(\<Union>r \<in> set (filter (\<lambda>r. from r = n \<or> to r = n) (relations g)). {from r, to r})
     \<subseteq> insert n (neighbours g {n})"
  "neighbours g {n} \<subseteq>
     (\<Union>r \<in> set (filter (\<lambda>r. from r = n \<or> to r = n) (relations g)). {from r, to r})"
  unfolding neighbours_def by auto

lemma visitNode_sets:
  assumes "n \<in> set (fst st)"
  shows "set (fst (visitNode g n st)) = set (fst st) \<union> neighbours g {n}"
    and "set (snd (visitNode g n st)) = set (snd st) \<union> (neighbours g {n} - set (fst st))"
proof -
  let ?E = "\<Union>r \<in> set (filter (\<lambda>r. from r = n \<or> to r = n) (relations g)). {from r, to r}"
  note sub = touching_ends(1) [where n = n and g = g] and sup = touching_ends(2) [where n = n and g = g]
  from fold_visitRelation_sets [of "filter (\<lambda>r. from r = n \<or> to r = n) (relations g)" st]
  have f: "set (fst (visitNode g n st)) = set (fst st) \<union> ?E"
    and s: "set (snd (visitNode g n st)) = set (snd st) \<union> (?E - set (fst st))"
    unfolding visitNode_def Let_def by blast+
  have "set (fst st) \<union> ?E = set (fst st) \<union> neighbours g {n}"
    using sub sup assms by (rule_tac equalityI) blast+
  with f show "set (fst (visitNode g n st)) = set (fst st) \<union> neighbours g {n}"
    by simp
  have "?E - set (fst st) = neighbours g {n} - set (fst st)"
    using sub sup assms by (rule_tac equalityI) blast+
  with s show "set (snd (visitNode g n st)) = set (snd st) \<union> (neighbours g {n} - set (fst st))"
    by simp
qed

lemma fold_visitNode_sets:
  assumes "set nodes \<subseteq> set (fst st)"
  shows "set (fst (fold (visitNode g) nodes st)) = set (fst st) \<union> neighbours g (set nodes) \<and>
         set (snd (fold (visitNode g) nodes st)) =
           set (snd st) \<union> (neighbours g (set nodes) - set (fst st))"
  using assms
proof (induction nodes arbitrary: st)
  case Nil
  then show ?case by simp
next
  case (Cons n nodes)
  from Cons.prems have n: "n \<in> set (fst st)" by simp
  note v = visitNode_sets [OF n, of g]
  from Cons.prems v(1) have "set nodes \<subseteq> set (fst (visitNode g n st))" by auto
  from Cons.IH [OF this] v
  have f: "set (fst (fold (visitNode g) (n # nodes) st)) =
          (set (fst st) \<union> neighbours g {n}) \<union> neighbours g (set nodes)"
    and s: "set (snd (fold (visitNode g) (n # nodes) st)) =
          set (snd st) \<union> (neighbours g {n} - set (fst st)) \<union>
          (neighbours g (set nodes) - (set (fst st) \<union> neighbours g {n}))"
    by simp_all
  have all: "neighbours g (set (n # nodes)) = neighbours g {n} \<union> neighbours g (set nodes)"
    using neighbours_Un [of g "{n}" "set nodes"] by simp
  show ?case
    unfolding all by (rule level_sets [OF f s])
qed

lemma withinHops_closed:
  assumes "neighbours g (withinHops g s k) \<subseteq> withinHops g s k"
  shows "withinHops g s (k + j) = withinHops g s k"
  using assms by (induction j) auto

lemma expandLevels_withinHops:
  assumes "set nodes \<subseteq> set names"
      and "neighbours g (set names - set nodes) \<subseteq> set names"
      and "set names = withinHops g s k"
  shows "set (expandLevels g names nodes currentDepth depth) =
           withinHops g s (k + nat (depth - currentDepth))"
  using assms
proof (induction g names nodes currentDepth depth arbitrary: k rule: expandLevels.induct)
  case (1 graph names nodes currentDepth depth)
  have split: "set names = (set names - set nodes) \<union> set nodes"
    using "1.prems"(1) by blast
  have nb: "neighbours graph (set names) \<subseteq> set names \<union> neighbours graph (set nodes)"
    using neighbours_Un [of graph "set names - set nodes" "set nodes"] split "1.prems"(2)
    by auto
  show ?case
  proof (cases "currentDepth < depth \<and> length nodes > 0")
    case False
    then have res: "expandLevels graph names nodes currentDepth depth = names"
      by (simp add: expandLevels_stop)
    show ?thesis
    proof (cases "currentDepth < depth")
      case True
      with False have "nodes = []" by simp
      with "1.prems"(2,3) have "neighbours graph (withinHops graph s k) \<subseteq> withinHops graph s k"
        by simp
      from withinHops_closed [OF this] res "1.prems"(3) show ?thesis by simp
    next
      case False
      with res "1.prems"(3) show ?thesis by simp
    qed
  next
    case True
    let ?st = "fold (visitNode graph) nodes (names, [])"
    from fold_visitNode_sets [of nodes "(names, [])" graph] "1.prems"(1)
    have f: "set (fst ?st) = set names \<union> neighbours graph (set nodes)"
      and s: "set (snd ?st) = neighbours graph (set nodes) - set names"
      by simp_all
    have a: "set (snd ?st) \<subseteq> set (fst ?st)"
      using f s by blast
    have "set (fst ?st) - set (snd ?st) = set names"
      using f s by blast
    with nb f have b: "neighbours graph (set (fst ?st) - set (snd ?st)) \<subseteq> set (fst ?st)"
      by simp
    have "withinHops graph s (Suc k) = set names \<union> neighbours graph (set names)"
      using "1.prems"(3) by simp
    with nb f neighbours_mono [of "set nodes" "set names" graph] "1.prems"(1)
    have c: "set (fst ?st) = withinHops graph s (Suc k)"
      by blast
    from True have step: "expandLevels graph names nodes currentDepth depth =
        expandLevels graph (fst ?st) (snd ?st) (currentDepth + 1) depth"
      by (simp add: expandLevels_step)
    from True have eq: "Suc k + nat (depth - (currentDepth + 1)) = k + nat (depth - currentDepth)"
      by linarith
    have ih: "set (expandLevels graph (fst ?st) (snd ?st) (currentDepth + 1) depth) =
                withinHops graph s (Suc k + nat (depth - (currentDepth + 1)))"
      by (rule "1.IH" [OF True refl a b c])
    show ?thesis
      unfolding step ih eq by (rule refl)
  qed
qed

lemma expandLevels_start:
  "set (expandLevels g [s] [s] 0 depth) = withinHops g s (nat depth)"
  using expandLevels_withinHops [of "[s]" "[s]" g s 0 0 depth] by simp

lemma getRelatedNodes_withinHops:
  assumes "loadGraph R b = Inr graph"
  shows "getRelatedNodes R b start depth =
           Inr \<lparr>entries = filter (\<lambda>e. name e \<in> withinHops graph start (nat depth))
                            (entries graph),
                relations = filter (\<lambda>r. from r \<in> withinHops graph start (nat depth) \<and>
                                         to r \<in> withinHops graph start (nat depth))
                              (relations graph)\<rparr>"
  by (simp add: getRelatedNodes_def assms Let_def expandLevels_start)

lemma getRelatedNodes_depth0:
  assumes "loadGraph R b = Inr graph" and "depth \<le> 0"
  shows "getRelatedNodes R b start depth =
           Inr \<lparr>entries = filter (\<lambda>e. name e = start) (entries graph),
                relations = filter (\<lambda>r. from r = start \<and> to r = start) (relations graph)\<rparr>"
  using assms by (simp add: getRelatedNodes_def expandLevels_stop Let_def)

lemma chain_level1:
  assumes "relations graph = [ab, bc]" and "distinct [x, y, z]"
      and "from ab = x" "to ab = y" "from bc = y" "to bc = z"
  shows "visitNode graph x ([x], []) = ([x, y], [y])"
  using assms by (auto simp: visitNode_def visitRelation_def Let_def)

lemma chain_level2:
  assumes "relations graph = [ab, bc]" and "distinct [x, y, z]"
      and "from ab = x" "to ab = y" "from bc = y" "to bc = z"
  shows "visitNode graph y ([x, y], []) = ([x, y, z], [z])"
  using assms by (auto simp: visitNode_def visitRelation_def Let_def)

lemma chain_names:
  assumes "relations graph = [ab, bc]" and "distinct [x, y, z]"
      and "from ab = x" "to ab = y" "from bc = y" "to bc = z"
  shows "expandLevels graph [x] [x] 0 1 = [x, y]"
    and "expandLevels graph [x] [x] 0 2 = [x, y, z]"
  by (simp_all add: expandLevels_step expandLevels_stop chain_level1 [OF assms]
      chain_level2 [OF assms])

text \<open>
  C5, as amended. \<^verbatim>\<open>getRelatedNodes\<close> returns the entities whose name is within
  \<^verbatim>\<open>depth\<close> hops of the starting name, over relations in either direction, and the
  relations with both endpoints among these names. With depth 0 these are the entities
  named as the starting node and the relations that go from the starting node to
  itself, no other. On a graph that is the chain of three entities with distinct names
  \<open>x\<close>, \<open>y\<close>, \<open>z\<close> and the two relations from \<open>x\<close> to \<open>y\<close> and from \<open>y\<close> to \<open>z\<close>,
  it returns from \<open>x\<close>: with depth 0 the first entity and no relation, with depth 1
  the first two entities and the first relation, with depth 2 the whole graph.
\<close>

theorem getRelatedNodes_depth:
  assumes "loadGraph R b = Inr graph"
  shows "getRelatedNodes R b start depth =
           Inr \<lparr>entries = filter (\<lambda>e. name e \<in> withinHops graph start (nat depth))
                            (entries graph),
                relations = filter (\<lambda>r. from r \<in> withinHops graph start (nat depth) \<and>
                                         to r \<in> withinHops graph start (nat depth))
                              (relations graph)\<rparr>
       \<and> getRelatedNodes R b start 0 =
           Inr \<lparr>entries = filter (\<lambda>e. name e = start) (entries graph),
                relations = filter (\<lambda>r. from r = start \<and> to r = start) (relations graph)\<rparr>
       \<and> (entries graph = [ea, eb, ec] \<and> relations graph = [ab, bc] \<and>
          name ea = x \<and> name eb = y \<and> name ec = z \<and> distinct [x, y, z] \<and>
          from ab = x \<and> to ab = y \<and> from bc = y \<and> to bc = z \<longrightarrow>
            getRelatedNodes R b x 0 = Inr \<lparr>entries = [ea], relations = []\<rparr> \<and>
            getRelatedNodes R b x 1 = Inr \<lparr>entries = [ea, eb], relations = [ab]\<rparr> \<and>
            getRelatedNodes R b x 2 = Inr \<lparr>entries = [ea, eb, ec], relations = [ab, bc]\<rparr>)"
proof (intro conjI impI)
  show "getRelatedNodes R b start depth =
           Inr \<lparr>entries = filter (\<lambda>e. name e \<in> withinHops graph start (nat depth))
                            (entries graph),
                relations = filter (\<lambda>r. from r \<in> withinHops graph start (nat depth) \<and>
                                         to r \<in> withinHops graph start (nat depth))
                              (relations graph)\<rparr>"
    using assms by (rule getRelatedNodes_withinHops)
next
  show "getRelatedNodes R b start 0 =
           Inr \<lparr>entries = filter (\<lambda>e. name e = start) (entries graph),
                relations = filter (\<lambda>r. from r = start \<and> to r = start) (relations graph)\<rparr>"
    using assms by (rule getRelatedNodes_depth0) simp
next
  assume h: "entries graph = [ea, eb, ec] \<and> relations graph = [ab, bc] \<and>
          name ea = x \<and> name eb = y \<and> name ec = z \<and> distinct [x, y, z] \<and>
          from ab = x \<and> to ab = y \<and> from bc = y \<and> to bc = z"
  then have rel: "relations graph = [ab, bc]" and d: "distinct [x, y, z]"
    and e: "from ab = x" "to ab = y" "from bc = y" "to bc = z"
    by blast+
  note n = chain_names [OF rel d e]
  from h show "getRelatedNodes R b x 0 = Inr \<lparr>entries = [ea], relations = []\<rparr>"
    by (auto simp: getRelatedNodes_depth0 [OF assms])
  from h show "getRelatedNodes R b x 1 = Inr \<lparr>entries = [ea, eb], relations = [ab]\<rparr>"
    by (auto simp: getRelatedNodes_def assms n Let_def)
  from h show "getRelatedNodes R b x 2 = Inr \<lparr>entries = [ea, eb, ec], relations = [ab, bc]\<rparr>"
    by (auto simp: getRelatedNodes_def assms n Let_def)
qed

lemma faithful_loop:
  "jsonFaithful (JSON_parse demoRuntime) (JSON_stringify demoRuntime) loopGraph"
  by code_simp

lemma load_loop: "loadGraph demoRuntime (fileOf loopGraph) = Inr loopGraph"
  using loadGraph_saved [OF faithful_loop]
  by (simp add: fileOf_def reloaded_stamped loopGraph_def stamped_records)

theorem getRelatedNodes_depth_witness:
  "loadGraph demoRuntime (fileOf chainGraph) = Inr chainGraph \<and>
   getRelatedNodes demoRuntime (fileOf chainGraph) ''A'' 0 =
     Inr \<lparr>entries = [entityA], relations = []\<rparr> \<and>
   getRelatedNodes demoRuntime (fileOf chainGraph) ''A'' 1 =
     Inr \<lparr>entries = [entityA, entityB], relations = [relationAB]\<rparr> \<and>
   getRelatedNodes demoRuntime (fileOf chainGraph) ''A'' 2 =
     Inr \<lparr>entries = [entityA, entityB, entityC], relations = [relationAB, relationBC]\<rparr>"
  using getRelatedNodes_depth [OF load_chain, where ea = entityA and eb = entityB and ec = entityC
      and ab = relationAB and bc = relationBC and x = "''A''" and y = "''B''" and z = "''C''"
      and start = "''A''" and depth = 2, THEN conjunct2, THEN conjunct2] load_chain
  by (simp add: chainGraph_def record_defs)

text \<open>
  C5 as stated fails on a graph with a relation from the starting node to itself:
  both of its endpoints are in the set of names, so depth 0 returns it.
\<close>

theorem getRelatedNodes_self_loop_counterexample:
  "getRelatedNodes demoRuntime (fileOf loopGraph) ''A'' 0 =
     Inr \<lparr>entries = [entityA], relations = [relationAA]\<rparr>"
  using getRelatedNodes_depth0 [OF load_loop, of 0 "''A''"]
  by (simp add: loopGraph_def entityA_def relationAA_def)

section \<open>References to records that do not exist\<close>

lemma find_name_None:
  "(find (\<lambda>e. name e = n) es = None) = (n \<notin> name ` set es)"
  by (auto simp: find_None_iff)

lemma framed_names: "framed names es es' \<Longrightarrow> map name es' = map name es"
  unfolding framed_def by (induction es es' rule: list_all2_induct) auto

lemma addObservationsCallback_Inl:
  "n \<notin> name ` set (entries graph) \<Longrightarrow> ObservationAddition.entityName ob = n \<Longrightarrow>
   addObservationsCallback ts graph ob = Inl (EntityNotFound n)"
proof -
  assume "n \<notin> name ` set (entries graph)" and n: "ObservationAddition.entityName ob = n"
  then have "find (\<lambda>e. name e = n) (entries graph) = None"
    by (simp add: find_name_None)
  with n show ?thesis by (simp add: addObservationsCallback_def)
qed

lemma addObservationsCallback_Inr:
  assumes "ObservationAddition.entityName ob \<in> name ` set (entries graph)"
  shows "\<exists>result graph'. addObservationsCallback ts graph ob = Inr (result, graph') \<and>
           name ` set (entries graph') = name ` set (entries graph)"
proof -
  from assms obtain entity where
    "find (\<lambda>e. name e = ObservationAddition.entityName ob) (entries graph) = Some entity"
    using find_name_None [of "ObservationAddition.entityName ob" "entries graph"] by auto
  then obtain result graph' where
    c: "addObservationsCallback ts graph ob = Inr (result, graph')"
    by (simp add: addObservationsCallback_def Let_def)
  from addObservationsCallback_frame [OF c, of "[]"]
  have "map name (entries graph') = map name (entries graph)"
    by (auto dest: framed_names)
  then have "set (map name (entries graph')) = set (map name (entries graph))"
    by simp
  with c show ?thesis by auto
qed

lemma addObservationsMap_found:
  assumes "\<forall>ob \<in> set obs. ObservationAddition.entityName ob \<in> name ` set (entries graph)"
  shows "\<exists>results graph'. addObservationsMap ts graph obs = Inr (results, graph')"
  using assms
proof (induction obs arbitrary: graph)
  case Nil
  then show ?case by simp
next
  case (Cons ob obs)
  from Cons.prems addObservationsCallback_Inr [of ob graph ts]
  obtain result g1 where
    c: "addObservationsCallback ts graph ob = Inr (result, g1)"
    and n: "name ` set (entries g1) = name ` set (entries graph)"
    by auto
  from Cons.prems n have
    "\<forall>ob \<in> set obs. ObservationAddition.entityName ob \<in> name ` set (entries g1)"
    by simp
  from Cons.IH [OF this] obtain results graph' where
    "addObservationsMap ts g1 obs = Inr (results, graph')" by blast
  with c show ?case by simp
qed

lemma addObservationsMap_missing:
  assumes "\<exists>ob \<in> set obs. ObservationAddition.entityName ob \<notin> name ` set (entries graph)"
  shows "\<exists>ob \<in> set obs. ObservationAddition.entityName ob \<notin> name ` set (entries graph) \<and>
           addObservationsMap ts graph obs = Inl (EntityNotFound (ObservationAddition.entityName ob))"
  using assms
proof (induction obs arbitrary: graph)
  case Nil
  then show ?case by simp
next
  case (Cons ob obs)
  show ?case
  proof (cases "ObservationAddition.entityName ob \<in> name ` set (entries graph)")
    case False
    then show ?thesis by (simp add: addObservationsCallback_Inl)
  next
    case True
    from addObservationsCallback_Inr [OF True, of ts]
    obtain result g1 where
      c: "addObservationsCallback ts graph ob = Inr (result, g1)"
      and n: "name ` set (entries g1) = name ` set (entries graph)"
      by auto
    from Cons.prems True n have
      "\<exists>ob \<in> set obs. ObservationAddition.entityName ob \<notin> name ` set (entries g1)"
      by auto
    from Cons.IH [OF this] obtain ob' where
      "ob' \<in> set obs" "ObservationAddition.entityName ob' \<notin> name ` set (entries g1)"
      "addObservationsMap ts g1 obs = Inl (EntityNotFound (ObservationAddition.entityName ob'))"
      by blast
    with c n show ?thesis by auto
  qed
qed

lemma deleteObservationsEach_missing:
  assumes "\<forall>d \<in> set ds. ObservationDeletion.entityName d \<notin> name ` set (entries graph)"
  shows "deleteObservationsEach ts graph ds = graph"
  using assms
proof (induction ds)
  case Nil
  then show ?case by simp
next
  case (Cons d ds)
  then have "find (\<lambda>e. name e = ObservationDeletion.entityName d) (entries graph) = None"
    by (simp add: find_name_None)
  with Cons show ?case by (simp add: deleteObservationsCallback_def)
qed

text \<open>
  C4, as amended. On the graph it loaded, \<^verbatim>\<open>addObservations\<close> ends with the error of
  a missing entity whenever an \<^verbatim>\<open>entityName\<close> of the batch is the name of no entity,
  and returns otherwise. \<^verbatim>\<open>deleteObservations\<close>, \<^verbatim>\<open>deleteRelations\<close> and
  \<^verbatim>\<open>deleteEntities\<close> always save a graph and return. \<^verbatim>\<open>deleteObservations\<close> for
  names of no entity and \<^verbatim>\<open>deleteRelations\<close> for triples of no relation save the
  graph as it was loaded. \<^verbatim>\<open>deleteEntities\<close> for names of no entity keeps every
  entity and still removes the relations with such a name as \<^verbatim>\<open>from\<close> or \<^verbatim>\<open>to\<close>; it
  saves the graph as it was loaded when no relation has such an endpoint.
\<close>

theorem reference_errors:
  assumes "loadGraph R b = Inr graph"
  shows "((\<exists>ob \<in> set adds. ObservationAddition.entityName ob \<notin> name ` set (entries graph)) \<longrightarrow>
            (\<exists>ob \<in> set adds. ObservationAddition.entityName ob \<notin> name ` set (entries graph) \<and>
               addObservations R b adds = Inl (EntityNotFound (ObservationAddition.entityName ob))))
       \<and> ((\<forall>ob \<in> set adds. ObservationAddition.entityName ob \<in> name ` set (entries graph)) \<longrightarrow>
            (\<exists>results b'. addObservations R b adds = Inr (results, b')))
       \<and> (\<exists>graph'. deleteObservations R b dels = Inr (File (join (graphLines R graph'))))
       \<and> ((\<forall>d \<in> set dels. ObservationDeletion.entityName d \<notin> name ` set (entries graph)) \<longrightarrow>
            deleteObservations R b dels = Inr (File (join (graphLines R graph))))
       \<and> (\<exists>graph'. deleteRelations R b rels = Inr (File (join (graphLines R graph'))))
       \<and> ((\<forall>d \<in> set rels. \<forall>r \<in> set (relations graph).
              \<not> (from r = from d \<and> to r = to d \<and> relationType r = relationType d)) \<longrightarrow>
            deleteRelations R b rels = Inr (File (join (graphLines R graph))))
       \<and> (\<exists>graph'. deleteEntities R b names = Inr (File (join (graphLines R graph'))))
       \<and> ((\<forall>n \<in> set names. n \<notin> name ` set (entries graph)) \<longrightarrow>
            (\<exists>graph'. deleteEntities R b names = Inr (File (join (graphLines R graph'))) \<and>
               entries graph' = entries graph \<and>
               relations graph' =
                 filter (\<lambda>r. from r \<notin> set names \<and> to r \<notin> set names) (relations graph)))
       \<and> ((\<forall>n \<in> set names. n \<notin> name ` set (entries graph) \<and>
                              n \<notin> from ` set (relations graph) \<and> n \<notin> to ` set (relations graph)) \<longrightarrow>
            deleteEntities R b names = Inr (File (join (graphLines R graph))))"
proof -
  note w = loadGraph_writable [OF assms]
  have a1: "(\<exists>ob \<in> set adds. ObservationAddition.entityName ob \<notin> name ` set (entries graph)) \<longrightarrow>
            (\<exists>ob \<in> set adds. ObservationAddition.entityName ob \<notin> name ` set (entries graph) \<and>
               addObservations R b adds = Inl (EntityNotFound (ObservationAddition.entityName ob)))"
  proof
    assume "\<exists>ob \<in> set adds. ObservationAddition.entityName ob \<notin> name ` set (entries graph)"
    from addObservationsMap_missing [OF this, of "timestamp R"]
    show "\<exists>ob \<in> set adds. ObservationAddition.entityName ob \<notin> name ` set (entries graph) \<and>
               addObservations R b adds = Inl (EntityNotFound (ObservationAddition.entityName ob))"
      by (auto simp: addObservations_def assms)
  qed
  have a2: "(\<forall>ob \<in> set adds. ObservationAddition.entityName ob \<in> name ` set (entries graph)) \<longrightarrow>
            (\<exists>results b'. addObservations R b adds = Inr (results, b'))"
  proof
    assume "\<forall>ob \<in> set adds. ObservationAddition.entityName ob \<in> name ` set (entries graph)"
    from addObservationsMap_found [OF this, of "timestamp R"]
    show "\<exists>results b'. addObservations R b adds = Inr (results, b')"
      by (auto simp: addObservations_def assms w)
  qed
  have d1: "\<exists>graph'. deleteObservations R b dels = Inr (File (join (graphLines R graph')))"
    by (auto simp: deleteObservations_def assms w)
  have d2: "(\<forall>d \<in> set dels. ObservationDeletion.entityName d \<notin> name ` set (entries graph)) \<longrightarrow>
            deleteObservations R b dels = Inr (File (join (graphLines R graph)))"
    by (simp add: deleteObservations_def assms w deleteObservationsEach_missing)
  have r1: "\<exists>graph'. deleteRelations R b rels = Inr (File (join (graphLines R graph')))"
    by (auto simp: deleteRelations_def assms w)
  have r2: "(\<forall>d \<in> set rels. \<forall>r \<in> set (relations graph).
              \<not> (from r = from d \<and> to r = to d \<and> relationType r = relationType d)) \<longrightarrow>
            deleteRelations R b rels = Inr (File (join (graphLines R graph)))"
  proof
    assume h: "\<forall>d \<in> set rels. \<forall>r \<in> set (relations graph).
              \<not> (from r = from d \<and> to r = to d \<and> relationType r = relationType d)"
    then have "filter (\<lambda>r. \<not> list_ex (\<lambda>delRelation.
                           from r = from delRelation \<and> to r = to delRelation \<and>
                           relationType r = relationType delRelation) rels)
              (relations graph) = relations graph"
      by (auto simp: filter_id_conv list_ex_iff)
    then show "deleteRelations R b rels = Inr (File (join (graphLines R graph)))"
      by (simp add: deleteRelations_def assms w)
  qed
  have e1: "\<exists>graph'. deleteEntities R b names = Inr (File (join (graphLines R graph')))"
    by (auto simp: deleteEntities_def assms w)
  have e2: "(\<forall>n \<in> set names. n \<notin> name ` set (entries graph)) \<longrightarrow>
            (\<exists>graph'. deleteEntities R b names = Inr (File (join (graphLines R graph'))) \<and>
               entries graph' = entries graph \<and>
               relations graph' =
                 filter (\<lambda>r. from r \<notin> set names \<and> to r \<notin> set names) (relations graph))"
  proof
    assume "\<forall>n \<in> set names. n \<notin> name ` set (entries graph)"
    then have "filter (\<lambda>e. name e \<notin> set names) (entries graph) = entries graph"
      by (auto simp: filter_id_conv)
    then show "\<exists>graph'. deleteEntities R b names = Inr (File (join (graphLines R graph'))) \<and>
               entries graph' = entries graph \<and>
               relations graph' =
                 filter (\<lambda>r. from r \<notin> set names \<and> to r \<notin> set names) (relations graph)"
      by (intro exI [of _ "graph\<lparr>relations :=
            filter (\<lambda>r. from r \<notin> set names \<and> to r \<notin> set names) (relations graph)\<rparr>"])
         (simp add: deleteEntities_def assms w)
  qed
  have e3: "(\<forall>n \<in> set names. n \<notin> name ` set (entries graph) \<and>
                              n \<notin> from ` set (relations graph) \<and> n \<notin> to ` set (relations graph)) \<longrightarrow>
            deleteEntities R b names = Inr (File (join (graphLines R graph)))"
  proof
    assume h: "\<forall>n \<in> set names. n \<notin> name ` set (entries graph) \<and>
                              n \<notin> from ` set (relations graph) \<and> n \<notin> to ` set (relations graph)"
    then have "filter (\<lambda>e. name e \<notin> set names) (entries graph) = entries graph"
      by (auto simp: filter_id_conv)
    moreover from h have
      "filter (\<lambda>r. from r \<notin> set names \<and> to r \<notin> set names) (relations graph) = relations graph"
      by (auto simp: filter_id_conv)
    ultimately show "deleteEntities R b names = Inr (File (join (graphLines R graph)))"
      by (simp add: deleteEntities_def assms w)
  qed
  from a1 a2 d1 d2 r1 r2 e1 e2 e3 show ?thesis by blast
qed

lemma faithful_dangling:
  "jsonFaithful (JSON_parse demoRuntime) (JSON_stringify demoRuntime) danglingGraph"
  by code_simp

lemma faithful_onlyB:
  "jsonFaithful (JSON_parse demoRuntime) (JSON_stringify demoRuntime) onlyB"
  by code_simp

lemma load_dangling: "loadGraph demoRuntime (fileOf danglingGraph) = Inr danglingGraph"
  using loadGraph_saved [OF faithful_dangling]
  by (simp add: fileOf_def reloaded_stamped danglingGraph_def stamped_records)

lemma load_onlyB: "loadGraph demoRuntime (fileOf onlyB) = Inr onlyB"
  using loadGraph_saved [OF faithful_onlyB]
  by (simp add: fileOf_def reloaded_stamped onlyB_def stamped_records)

theorem reference_errors_witness:
  "loadGraph demoRuntime (fileOf chainGraph) = Inr chainGraph \<and>
   addObservations demoRuntime (fileOf chainGraph) [addSecond, addMissing] =
     Inl (EntityNotFound ''Z'') \<and>
   (\<exists>results b'. addObservations demoRuntime (fileOf chainGraph) [addSecond] = Inr (results, b')) \<and>
   deleteObservations demoRuntime (fileOf chainGraph) [deleteMissing] = Inr (fileOf chainGraph) \<and>
   deleteRelations demoRuntime (fileOf chainGraph) [relationXB] = Inr (fileOf chainGraph) \<and>
   deleteEntities demoRuntime (fileOf chainGraph) [''Z''] = Inr (fileOf chainGraph)"
proof -
  note t = reference_errors [OF load_chain, where dels = "[deleteMissing]"
      and rels = "[relationXB]" and names = "[''Z'']"]
  have n: "name ` set (entries chainGraph) = {''A'', ''B'', ''C''}"
    by (auto simp: chainGraph_def record_defs)
  from t [where adds = "[addSecond, addMissing]"]
  have "addObservations demoRuntime (fileOf chainGraph) [addSecond, addMissing] =
          Inl (EntityNotFound ''Z'')"
    by (simp add: n addSecond_def addMissing_def)
  moreover from t [where adds = "[addSecond]"]
  have "\<exists>results b'. addObservations demoRuntime (fileOf chainGraph) [addSecond] = Inr (results, b')"
    by (simp add: n addSecond_def)
  moreover from t [where adds = "[]"]
  have "deleteObservations demoRuntime (fileOf chainGraph) [deleteMissing] = Inr (fileOf chainGraph)"
    by (simp add: n deleteMissing_def fileOf_def)
  moreover from t [where adds = "[]"]
  have "deleteRelations demoRuntime (fileOf chainGraph) [relationXB] = Inr (fileOf chainGraph)"
    by (simp add: chainGraph_def relationAB_def relationBC_def relationXB_def fileOf_def)
  moreover from t [where adds = "[]"]
  have "deleteEntities demoRuntime (fileOf chainGraph) [''Z''] = Inr (fileOf chainGraph)"
    by (simp add: chainGraph_def record_defs fileOf_def)
  ultimately show ?thesis using load_chain by blast
qed

text \<open>
  C4 as stated fails for \<^verbatim>\<open>deleteEntities\<close> on the name of no entity that a relation
  still has as an endpoint: the relation is removed from the file.
\<close>

theorem deleteEntities_dangling_counterexample:
  "''X'' \<notin> name ` set (entries danglingGraph) \<and>
   relations danglingGraph = [relationXB] \<and>
   loadGraph demoRuntime (fileOf danglingGraph) = Inr danglingGraph \<and>
   deleteEntities demoRuntime (fileOf danglingGraph) [''X''] = Inr (fileOf onlyB) \<and>
   loadGraph demoRuntime (fileOf onlyB) = Inr onlyB \<and>
   relations onlyB = []"
proof -
  have "deleteEntities demoRuntime (fileOf danglingGraph) [''X''] = Inr (fileOf onlyB)"
    by (simp add: deleteEntities_def load_dangling loadGraph_writable [OF load_dangling]
        fileOf_eq)
       (simp add: danglingGraph_def onlyB_def entityB_def relationXB_def)
  then show ?thesis
    using load_dangling load_onlyB by (simp add: danglingGraph_def onlyB_def entityB_def)
qed

section \<open>Adding an observation twice\<close>

lemma find_updateFirst:
  "find P xs = Some e \<Longrightarrow> P (f e) \<Longrightarrow> find P (updateFirst P f xs) = Some (f e)"
  by (induction xs) (auto split: if_splits)

lemma find_Some_holds: "find P xs = Some e \<Longrightarrow> P e"
  by (induction xs) (auto split: if_splits)

lemma count_list_append_one:
  "count_list (xs @ [x]) y = count_list xs y + (if x = y then 1 else 0)"
  by (induction xs) auto

lemma count_list_member: "x \<in> set xs \<Longrightarrow> count_list xs x \<ge> 1"
  by (induction xs) auto

lemma count_list_absent: "x \<notin> set xs \<Longrightarrow> count_list xs x = 0"
  by (induction xs) auto

lemma addObservationsCallback_present:
  assumes "find (\<lambda>e. name e = n) (entries graph) = Some entity"
      and "x \<in> set (observations entity)"
  shows "addObservationsCallback ts graph
           \<lparr>ObservationAddition.entityName = n, contents = [x]\<rparr> =
         Inr (\<lparr>ObservationResult.entityName = n, addedObservations = []\<rparr>, graph)"
  using assms by (simp add: addObservationsCallback_def)

lemma addObservationsCallback_once:
  assumes "find (\<lambda>e. name e = n) (entries graph) = Some entity"
      and "count_list (observations entity) x \<le> 1"
      and "addObservationsCallback ts graph
             \<lparr>ObservationAddition.entityName = n, contents = [x]\<rparr> = Inr (result, graph1)"
  shows "\<exists>entity1. find (\<lambda>e. name e = n) (entries graph1) = Some entity1 \<and>
           count_list (observations entity1) x = 1"
proof (cases "x \<in> set (observations entity)")
  case True
  with assms(1,3) have "graph1 = graph"
    by (simp add: addObservationsCallback_present)
  moreover from True assms(2) have "count_list (observations entity) x = 1"
    using count_list_member [of x "observations entity"] by simp
  ultimately show ?thesis using assms(1) by simp
next
  case False
  let ?f = "\<lambda>e. e\<lparr>updatedAt := ts, observations := observations e @ [x]\<rparr>"
  from False assms(1,3) have
    g1: "graph1 = graph\<lparr>entries := updateFirst (\<lambda>e. name e = n) ?f (entries graph)\<rparr>"
    by (simp add: addObservationsCallback_def Let_def)
  have "name (?f entity) = n"
    using find_Some_holds [OF assms(1)] by simp
  with find_updateFirst [OF assms(1), of ?f] g1
  have "find (\<lambda>e. name e = n) (entries graph1) = Some (?f entity)"
    by simp
  moreover from False have "count_list (observations (?f entity)) x = 1"
    by (simp add: count_list_append_one count_list_absent)
  ultimately show ?thesis by blast
qed

lemma find_enumerate_map:
  assumes "find (\<lambda>e. name e = n) es = Some e1"
      and "\<And>i e. name (f (i, e)) = name e"
  shows "\<exists>i. find (\<lambda>e. name e = n) (map f (enumerate k es)) = Some (f (i, e1))"
  using assms(1)
proof (induction es arbitrary: k)
  case Nil
  then show ?case by simp
next
  case (Cons e es)
  show ?case
  proof (cases "name e = n")
    case True
    with Cons.prems have "e = e1" by simp
    with True assms(2) show ?thesis by auto
  next
    case False
    with Cons.prems have "find (\<lambda>e. name e = n) es = Some e1" by simp
    from Cons.IH [OF this, of "Suc k"] False assms(2) show ?thesis by auto
  qed
qed

lemma find_reloaded:
  assumes "find (\<lambda>e. name e = n) (entries graph) = Some e1"
  shows "\<exists>e2. find (\<lambda>e. name e = n) (entries (reloaded R graph)) = Some e2 \<and>
           observations e2 = observations e1 \<and>
           (updatedAt e1 \<noteq> [] \<longrightarrow> updatedAt e2 = updatedAt e1)"
proof -
  let ?f = "\<lambda>(i, e). loadEntity R i (Some (uuid e)) (Some (createdAt e)) (Some (updatedAt e))
                        \<lparr>EntityInput.name = name e, entityType = entityType e,
                         observations = observations e\<rparr>"
  have "\<And>i e. name (?f (i, e)) = name e"
    by (simp add: loadEntity_def)
  from find_enumerate_map [OF assms, of ?f 0, OF this]
  obtain i where "find (\<lambda>e. name e = n) (entries (reloaded R graph)) = Some (?f (i, e1))"
    by (auto simp: reloaded_def)
  moreover have "observations (?f (i, e1)) = observations e1"
    by (simp add: loadEntity_def)
  moreover have "updatedAt e1 \<noteq> [] \<longrightarrow> updatedAt (?f (i, e1)) = updatedAt e1"
    by (simp add: loadEntity_def orElse_Some)
  ultimately show ?thesis by blast
qed

text \<open>
  C6, as amended. An entity is found under the name \<open>n\<close> and has the observation
  \<open>x\<close> at most once. A first \<^verbatim>\<open>addObservations\<close> of \<open>x\<close> to \<open>n\<close> saves a graph in which the
  entity has \<open>x\<close> exactly once. A second add reports the empty list for the entity and
  leaves the graph as it is, in the same batch as well as in a later call. The later
  call, on a platform whose \<^verbatim>\<open>JSON.parse\<close> reads the saved records back, loads the
  entity with the same observations and, unless it is empty, the same \<^verbatim>\<open>updatedAt\<close>,
  and saves the graph it loaded: \<open>x\<close> is there once and \<^verbatim>\<open>updatedAt\<close> is not
  refreshed.
\<close>

theorem addObservations_twice:
  assumes load: "loadGraph R1 b = Inr graph"
      and found: "find (\<lambda>e. name e = n) (entries graph) = Some entity"
      and once: "count_list (observations entity) x \<le> 1"
      and first: "addObservationsMap (timestamp R1) graph
                    [\<lparr>ObservationAddition.entityName = n, contents = [x]\<rparr>] =
                  Inr (results1, graph1)"
      and faithful: "jsonFaithful (JSON_parse R2) (JSON_stringify R1) graph1"
  shows "addObservations R1 b [\<lparr>ObservationAddition.entityName = n, contents = [x]\<rparr>] =
           Inr (results1, File (join (graphLines R1 graph1))) \<and>
         addObservations R1 b [\<lparr>ObservationAddition.entityName = n, contents = [x]\<rparr>,
                               \<lparr>ObservationAddition.entityName = n, contents = [x]\<rparr>] =
           Inr (results1 @ [\<lparr>ObservationResult.entityName = n, addedObservations = []\<rparr>],
                File (join (graphLines R1 graph1))) \<and>
         (\<exists>entity1 graph2 entity2.
            find (\<lambda>e. name e = n) (entries graph1) = Some entity1 \<and>
            count_list (observations entity1) x = 1 \<and>
            loadGraph R2 (File (join (graphLines R1 graph1))) = Inr graph2 \<and>
            find (\<lambda>e. name e = n) (entries graph2) = Some entity2 \<and>
            observations entity2 = observations entity1 \<and>
            (updatedAt entity1 \<noteq> [] \<longrightarrow> updatedAt entity2 = updatedAt entity1) \<and>
            addObservations R2 (File (join (graphLines R1 graph1)))
              [\<lparr>ObservationAddition.entityName = n, contents = [x]\<rparr>] =
              Inr ([\<lparr>ObservationResult.entityName = n, addedObservations = []\<rparr>],
                   File (join (graphLines R2 graph2))))"
proof -
  let ?add = "\<lparr>ObservationAddition.entityName = n, contents = [x]\<rparr>"
  let ?file1 = "File (join (graphLines R1 graph1))"
  from first obtain result where
    cb: "addObservationsCallback (timestamp R1) graph ?add = Inr (result, graph1)"
    and res: "results1 = [result]"
    by (auto simp: bindE_def split: sum.splits)
  from addObservationsCallback_once [OF found once cb] obtain entity1 where
    e1: "find (\<lambda>e. name e = n) (entries graph1) = Some entity1"
    and c1: "count_list (observations entity1) x = 1"
    by blast
  from c1 have in1: "x \<in> set (observations entity1)"
    using count_list_absent [of x "observations entity1"] by force
  have call1: "addObservations R1 b [?add] = Inr (results1, ?file1)"
    using first by (simp add: addObservations_def load loadGraph_writable [OF load]
        del: addObservationsMap.simps)
  have "addObservationsMap (timestamp R1) graph [?add, ?add] =
          Inr (results1 @ [\<lparr>ObservationResult.entityName = n, addedObservations = []\<rparr>], graph1)"
    by (simp add: cb res addObservationsCallback_present [OF e1 in1])
  then have batch: "addObservations R1 b [?add, ?add] =
          Inr (results1 @ [\<lparr>ObservationResult.entityName = n, addedObservations = []\<rparr>], ?file1)"
    by (simp add: addObservations_def load loadGraph_writable [OF load]
        del: addObservationsMap.simps)
  let ?graph2 = "reloaded R2 graph1"
  have load2: "loadGraph R2 ?file1 = Inr ?graph2"
    by (rule loadGraph_saved [OF faithful])
  from find_reloaded [OF e1, of R2] obtain entity2 where
    e2: "find (\<lambda>e. name e = n) (entries ?graph2) = Some entity2"
    and o2: "observations entity2 = observations entity1"
    and u2: "updatedAt entity1 \<noteq> [] \<longrightarrow> updatedAt entity2 = updatedAt entity1"
    by blast
  from in1 o2 have in2: "x \<in> set (observations entity2)" by simp
  have call2: "addObservations R2 ?file1 [?add] =
          Inr ([\<lparr>ObservationResult.entityName = n, addedObservations = []\<rparr>],
               File (join (graphLines R2 ?graph2)))"
    by (simp add: addObservations_def load2 loadGraph_writable [OF load2]
        addObservationsCallback_present [OF e2 in2])
  from call1 batch e1 c1 load2 e2 o2 u2 call2 show ?thesis by blast
qed

lemma faithful_chain2:
  "jsonFaithful (JSON_parse demoRuntime) (JSON_stringify demoRuntime) chainGraph2"
  by code_simp

lemma load_chain2: "loadGraph laterRuntime (fileOf chainGraph2) = Inr chainGraph2"
  using loadGraph_saved [of laterRuntime demoRuntime chainGraph2] faithful_chain2
  by (simp add: fileOf_def reloaded_stamped chainGraph2_def stamped_records)

theorem addObservations_twice_witness:
  "loadGraph demoRuntime (fileOf chainGraph) = Inr chainGraph \<and>
   addObservations demoRuntime (fileOf chainGraph) [addSecond] =
     Inr ([\<lparr>ObservationResult.entityName = ''A'', addedObservations = [''second'']\<rparr>],
          fileOf chainGraph2) \<and>
   loadGraph laterRuntime (fileOf chainGraph2) = Inr chainGraph2 \<and>
   addObservations laterRuntime (fileOf chainGraph2) [addSecond] =
     Inr ([\<lparr>ObservationResult.entityName = ''A'', addedObservations = []\<rparr>],
          fileOf chainGraph2) \<and>
   find (\<lambda>e. name e = ''A'') (entries chainGraph2) = Some entityA2 \<and>
   observations entityA2 = [''first'', ''second''] \<and>
   updatedAt entityA2 = timestamp demoRuntime \<and>
   timestamp laterRuntime \<noteq> timestamp demoRuntime"
proof -
  have found: "find (\<lambda>e. name e = ''A'') (entries chainGraph) = Some entityA"
    by (simp add: chainGraph_def entityA_def)
  have once: "count_list (observations entityA) ''second'' \<le> 1"
    by (simp add: entityA_def)
  have faithful: "jsonFaithful (JSON_parse laterRuntime) (JSON_stringify demoRuntime) chainGraph2"
    using faithful_chain2 by simp
  from addObservations_twice [OF load_chain found once
      addSecond_chain [unfolded addSecond_def] faithful]
  obtain graph2 where
    "loadGraph laterRuntime (File (join (graphLines demoRuntime chainGraph2))) = Inr graph2"
    "addObservations laterRuntime (File (join (graphLines demoRuntime chainGraph2)))
       [\<lparr>ObservationAddition.entityName = ''A'', contents = [''second'']\<rparr>] =
     Inr ([\<lparr>ObservationResult.entityName = ''A'', addedObservations = []\<rparr>],
          File (join (graphLines laterRuntime graph2)))"
    by blast
  with load_chain2 have
    "addObservations laterRuntime (fileOf chainGraph2) [addSecond] =
       Inr ([\<lparr>ObservationResult.entityName = ''A'', addedObservations = []\<rparr>],
            fileOf chainGraph2)"
    by (simp add: fileOf_def addSecond_def graphLines_cong [OF later_JSON(2)])
  moreover have "find (\<lambda>e. name e = ''A'') (entries chainGraph2) = Some entityA2"
    by (simp add: chainGraph2_def entityA2_def)
  moreover have "observations entityA2 = [''first'', ''second'']"
    "updatedAt entityA2 = timestamp demoRuntime"
    "timestamp laterRuntime \<noteq> timestamp demoRuntime"
    by (simp_all add: entityA2_def demoRuntime_def laterRuntime_def)
  ultimately show ?thesis
    using load_chain addObservations_chain load_chain2 by blast
qed

lemma faithful_doubled:
  "jsonFaithful (JSON_parse demoRuntime) (JSON_stringify demoRuntime) doubledGraph"
  by code_simp

lemma load_doubled: "loadGraph laterRuntime (fileOf doubledGraph) = Inr doubledGraph"
  using loadGraph_saved [of laterRuntime demoRuntime doubledGraph] faithful_doubled
  by (simp add: fileOf_def reloaded_stamped doubledGraph_def stamped_records)

text \<open>
  C6 as stated fails on an entity that holds the string twice already, as
  \<^verbatim>\<open>createEntities\<close> stores it for a candidate that lists it twice: the two adds
  report the empty list and the string stays twice.
\<close>

theorem addObservations_doubled_counterexample:
  "createEntities demoRuntime NoFile [doubledInput] = Inr ([doubled], fileOf doubledGraph) \<and>
   loadGraph laterRuntime (fileOf doubledGraph) = Inr doubledGraph \<and>
   find (\<lambda>e. name e = ''Echo'') (entries doubledGraph) = Some doubled \<and>
   addObservations laterRuntime (fileOf doubledGraph) [addSame, addSame] =
     Inr ([\<lparr>ObservationResult.entityName = ''Echo'', addedObservations = []\<rparr>,
           \<lparr>ObservationResult.entityName = ''Echo'', addedObservations = []\<rparr>],
          fileOf doubledGraph) \<and>
   count_list (observations doubled) ''same'' = 2"
proof -
  have "loadGraph demoRuntime NoFile = Inr emptyGraph"
    by (simp add: loadGraph_def readFile_def)
  then have c: "createEntities demoRuntime NoFile [doubledInput] =
                  Inr ([doubled], fileOf doubledGraph)"
    by (simp add: createEntities_def saveGraph_NoFile fileOf_eq emptyGraph_def)
       (simp add: doubledGraph_def doubled_def doubledInput_def demoRuntime_def Let_def)
  have f: "find (\<lambda>e. name e = ''Echo'') (entries doubledGraph) = Some doubled"
    by (simp add: doubledGraph_def doubled_def)
  have i: "''same'' \<in> set (observations doubled)"
    by (simp add: doubled_def)
  have "addObservationsMap (timestamp laterRuntime) doubledGraph [addSame, addSame] =
     Inr ([\<lparr>ObservationResult.entityName = ''Echo'', addedObservations = []\<rparr>,
           \<lparr>ObservationResult.entityName = ''Echo'', addedObservations = []\<rparr>], doubledGraph)"
    by (simp add: addSame_def addObservationsCallback_present [OF f i])
  then have a: "addObservations laterRuntime (fileOf doubledGraph) [addSame, addSame] =
     Inr ([\<lparr>ObservationResult.entityName = ''Echo'', addedObservations = []\<rparr>,
           \<lparr>ObservationResult.entityName = ''Echo'', addedObservations = []\<rparr>],
          fileOf doubledGraph)"
    by (simp add: addObservations_def load_doubled loadGraph_writable [OF load_doubled]
        graphLines_cong [OF later_JSON(2)] fileOf_eq del: addObservationsMap.simps)
  have "count_list (observations doubled) ''same'' = 2"
    by (simp add: doubled_def)
  with c load_doubled f a show ?thesis by blast
qed


section \<open>Creating a record twice\<close>

lemma loadLine_keys:
  assumes "JSON_parse R2 = JSON_parse R1"
      and "entityKeys g2 = entityKeys g1" and "relationKeys g2 = relationKeys g1"
  shows "entityKeys (loadLine R2 il g2) = entityKeys (loadLine R1 il g1) \<and>
         relationKeys (loadLine R2 il g2) = relationKeys (loadLine R1 il g1)"
  using assms
  by (auto simp: loadLine_def entityKeys_def relationKeys_def relationKey_def loadEntity_def
      loadRelation_def split: option.splits item.splits)

lemma fold_loadLine_keys:
  assumes "JSON_parse R2 = JSON_parse R1"
      and "entityKeys g2 = entityKeys g1" and "relationKeys g2 = relationKeys g1"
  shows "entityKeys (fold (loadLine R2) ils g2) = entityKeys (fold (loadLine R1) ils g1) \<and>
         relationKeys (fold (loadLine R2) ils g2) = relationKeys (fold (loadLine R1) ils g1)"
  using assms(2,3)
proof (induction ils arbitrary: g1 g2)
  case Nil
  then show ?case by simp
next
  case (Cons il ils)
  from loadLine_keys [OF assms(1) Cons.prems, of il]
  have "entityKeys (loadLine R2 il g2) = entityKeys (loadLine R1 il g1)"
    "relationKeys (loadLine R2 il g2) = relationKeys (loadLine R1 il g1)"
    by simp_all
  from Cons.IH [OF this] show ?case by simp
qed

lemma loadGraph_keys:
  assumes "JSON_parse R2 = JSON_parse R1" and "loadGraph R1 b = Inr g1"
  shows "\<exists>g2. loadGraph R2 b = Inr g2 \<and> entityKeys g2 = entityKeys g1 \<and>
           relationKeys g2 = relationKeys g1"
proof (cases b)
  case (File data)
  let ?ils = "enumerate 0 (filter (\<lambda>line. trim line \<noteq> []) (split data))"
  from File assms(2) have g1: "g1 = fold (loadLine R1) ?ils emptyGraph"
    by (simp add: loadGraph_def readFile_def)
  from File have "loadGraph R2 b = Inr (fold (loadLine R2) ?ils emptyGraph)"
    by (simp add: loadGraph_def readFile_def)
  with fold_loadLine_keys [OF assms(1), of emptyGraph emptyGraph ?ils] g1
  show ?thesis by simp
qed (use assms(2) in \<open>simp_all add: loadGraph_def readFile_def\<close>)

lemma map_enumerate_proj:
  "(\<And>i x. g (f (i, x)) = h x) \<Longrightarrow> map (g \<circ> f) (enumerate k xs) = map h xs"
  by (induction xs arbitrary: k) auto

lemma reloaded_keys:
  "entityKeys (reloaded R graph) = entityKeys graph"
  "relationKeys (reloaded R graph) = relationKeys graph"
proof -
  show "entityKeys (reloaded R graph) = entityKeys graph"
    unfolding entityKeys_def reloaded_def
    by (simp, rule map_enumerate_proj) (simp add: loadEntity_def)
  show "relationKeys (reloaded R graph) = relationKeys graph"
    unfolding relationKeys_def reloaded_def
    by (simp, rule map_enumerate_proj) (simp add: loadRelation_def relationKey_def)
qed

lemma createEntities_single:
  assumes "loadGraph R b = Inr graph"
  shows "createEntities R b [c] =
           (if EntityInput.name c \<in> set (entityKeys graph) then Inr ([], b)
            else Inr ([\<lparr>uuid = newUUID R 0, createdAt = timestamp R, updatedAt = timestamp R,
                        name = EntityInput.name c, entityType = EntityInput.entityType c,
                        observations = EntityInput.observations c\<rparr>],
                      File (join (graphLines R (graph\<lparr>entries := entries graph @
                        [\<lparr>uuid = newUUID R 0, createdAt = timestamp R, updatedAt = timestamp R,
                          name = EntityInput.name c, entityType = EntityInput.entityType c,
                          observations = EntityInput.observations c\<rparr>]\<rparr>)))))"
  by (auto simp: createEntities_def assms loadGraph_writable [OF assms] entityKeys_def
      list_ex_iff Let_def intro: rev_image_eqI)

lemma createRelations_single:
  assumes "loadGraph R b = Inr graph"
  shows "createRelations R b [r] =
           (if inputKey r \<in> set (relationKeys graph) then Inr ([], b)
            else Inr ([\<lparr>uuid = newUUID R 0, createdAt = timestamp R, updatedAt = timestamp R,
                        from = RelationInput.from r, to = RelationInput.to r,
                        relationType = RelationInput.relationType r\<rparr>],
                      File (join (graphLines R (graph\<lparr>relations := relations graph @
                        [\<lparr>uuid = newUUID R 0, createdAt = timestamp R, updatedAt = timestamp R,
                          from = RelationInput.from r, to = RelationInput.to r,
                          relationType = RelationInput.relationType r\<rparr>]\<rparr>)))))"
  by (auto simp: createRelations_def assms loadGraph_writable [OF assms] relationKeys_def
      relationKey_def inputKey_def list_ex_iff Let_def intro: rev_image_eqI)

lemma createEntities_twice:
  assumes load: "loadGraph R1 b = Inr graph"
      and parse: "JSON_parse R2 = JSON_parse R1"
      and first: "createEntities R1 b [c] = Inr (created, b1)"
      and faithful: "jsonFaithful (JSON_parse R2) (JSON_stringify R1)
                       (graph\<lparr>entries := entries graph @ created\<rparr>)"
      and once: "count_list (entityKeys graph) (EntityInput.name c) \<le> 1"
      and same: "EntityInput.name c' = EntityInput.name c"
  shows "createEntities R2 b1 [c'] = Inr ([], b1) \<and>
         (\<exists>graph1. loadGraph R2 b1 = Inr graph1 \<and>
            count_list (entityKeys graph1) (EntityInput.name c) = 1)"
proof (cases "EntityInput.name c \<in> set (entityKeys graph)")
  case True
  with first have b1: "b1 = b"
    by (simp add: createEntities_single [OF load])
  from loadGraph_keys [OF parse load] obtain g2 where
    l2: "loadGraph R2 b = Inr g2" and k2: "entityKeys g2 = entityKeys graph"
    by blast
  from True once have "count_list (entityKeys graph) (EntityInput.name c) = 1"
    using count_list_member [OF True] by simp
  with True l2 k2 b1 same show ?thesis
    by (simp add: createEntities_single [OF l2])
next
  case False
  let ?g1 = "graph\<lparr>entries := entries graph @ created\<rparr>"
  from False first have
    created: "created = [\<lparr>uuid = newUUID R1 0, createdAt = timestamp R1,
                          updatedAt = timestamp R1,
                          name = EntityInput.name c, entityType = EntityInput.entityType c,
                          observations = EntityInput.observations c\<rparr>]"
    and b1: "b1 = File (join (graphLines R1 ?g1))"
    by (auto simp: createEntities_single [OF load])
  have l2: "loadGraph R2 b1 = Inr (reloaded R2 ?g1)"
    unfolding b1 by (rule loadGraph_saved [OF faithful])
  have keys: "entityKeys (reloaded R2 ?g1) = entityKeys graph @ [EntityInput.name c]"
    by (simp add: reloaded_keys) (simp add: entityKeys_def created)
  from False have "count_list (entityKeys graph) (EntityInput.name c) = 0"
    by (simp add: count_list_absent)
  with keys have "count_list (entityKeys (reloaded R2 ?g1)) (EntityInput.name c) = 1"
    by (simp add: count_list_append_one)
  moreover from keys same have "createEntities R2 b1 [c'] = Inr ([], b1)"
    by (simp add: createEntities_single [OF l2])
  ultimately show ?thesis using l2 by blast
qed

lemma createRelations_twice:
  assumes load: "loadGraph R1 b = Inr graph"
      and parse: "JSON_parse R2 = JSON_parse R1"
      and first: "createRelations R1 b [r] = Inr (created, b1)"
      and faithful: "jsonFaithful (JSON_parse R2) (JSON_stringify R1)
                       (graph\<lparr>relations := relations graph @ created\<rparr>)"
      and once: "count_list (relationKeys graph) (inputKey r) \<le> 1"
      and same: "inputKey r' = inputKey r"
  shows "createRelations R2 b1 [r'] = Inr ([], b1) \<and>
         (\<exists>graph1. loadGraph R2 b1 = Inr graph1 \<and>
            count_list (relationKeys graph1) (inputKey r) = 1)"
proof (cases "inputKey r \<in> set (relationKeys graph)")
  case True
  with first have b1: "b1 = b"
    by (simp add: createRelations_single [OF load])
  from loadGraph_keys [OF parse load] obtain g2 where
    l2: "loadGraph R2 b = Inr g2" and k2: "relationKeys g2 = relationKeys graph"
    by blast
  from True once have "count_list (relationKeys graph) (inputKey r) = 1"
    using count_list_member [OF True] by simp
  with True l2 k2 b1 same show ?thesis
    by (simp add: createRelations_single [OF l2])
next
  case False
  let ?g1 = "graph\<lparr>relations := relations graph @ created\<rparr>"
  from False first have
    created: "created = [\<lparr>uuid = newUUID R1 0, createdAt = timestamp R1,
                          updatedAt = timestamp R1,
                          from = RelationInput.from r, to = RelationInput.to r,
                          relationType = RelationInput.relationType r\<rparr>]"
    and b1: "b1 = File (join (graphLines R1 ?g1))"
    by (auto simp: createRelations_single [OF load])
  have l2: "loadGraph R2 b1 = Inr (reloaded R2 ?g1)"
    unfolding b1 by (rule loadGraph_saved [OF faithful])
  have keys: "relationKeys (reloaded R2 ?g1) = relationKeys graph @ [inputKey r]"
    by (simp add: reloaded_keys) (simp add: relationKeys_def relationKey_def inputKey_def created)
  from False have "count_list (relationKeys graph) (inputKey r) = 0"
    by (simp add: count_list_absent)
  with keys have "count_list (relationKeys (reloaded R2 ?g1)) (inputKey r) = 1"
    by (simp add: count_list_append_one)
  moreover from keys same have "createRelations R2 b1 [r'] = Inr ([], b1)"
    by (simp add: createRelations_single [OF l2])
  ultimately show ?thesis using l2 by blast
qed

text \<open>
  Two sequential calls. A first call of \<^verbatim>\<open>createEntities\<close> with one candidate, on a graph
  that has the name of the candidate at most once, and a second call with a candidate
  of the same name, on a platform whose \<^verbatim>\<open>JSON.parse\<close> reads back what the first call
  saved: the second call returns the empty sequence and leaves the file as it is, and
  the file holds exactly one entity of that name. The same for \<^verbatim>\<open>createRelations\<close> and
  the triple of \<^verbatim>\<open>from\<close>, \<^verbatim>\<open>to\<close> and \<^verbatim>\<open>relationType\<close>.
\<close>

theorem create_twice:
  assumes "loadGraph R1 b = Inr graph"
      and "JSON_parse R2 = JSON_parse R1"
      and "createEntities R1 b [c] = Inr (created, b1)"
      and "jsonFaithful (JSON_parse R2) (JSON_stringify R1)
             (graph\<lparr>entries := entries graph @ created\<rparr>)"
      and "count_list (entityKeys graph) (EntityInput.name c) \<le> 1"
      and "EntityInput.name c' = EntityInput.name c"
      and "createRelations R1 b [r] = Inr (createdR, bR)"
      and "jsonFaithful (JSON_parse R2) (JSON_stringify R1)
             (graph\<lparr>relations := relations graph @ createdR\<rparr>)"
      and "count_list (relationKeys graph) (inputKey r) \<le> 1"
      and "inputKey r' = inputKey r"
  shows "createEntities R2 b1 [c'] = Inr ([], b1) \<and>
         (\<exists>graph1. loadGraph R2 b1 = Inr graph1 \<and>
            count_list (entityKeys graph1) (EntityInput.name c) = 1) \<and>
         createRelations R2 bR [r'] = Inr ([], bR) \<and>
         (\<exists>graphR. loadGraph R2 bR = Inr graphR \<and>
            count_list (relationKeys graphR) (inputKey r) = 1)"
  using createEntities_twice [OF assms(1-6)] createRelations_twice [OF assms(1,2,7-10)]
  by blast

lemma faithful_chainJohn:
  "jsonFaithful (JSON_parse demoRuntime) (JSON_stringify demoRuntime) chainJohn"
  by code_simp

lemma faithful_chainWorks:
  "jsonFaithful (JSON_parse demoRuntime) (JSON_stringify demoRuntime) chainWorks"
  by code_simp

lemma faithful_twoJohns:
  "jsonFaithful (JSON_parse demoRuntime) (JSON_stringify demoRuntime) twoJohns"
  by code_simp

lemma load_chainJohn: "loadGraph laterRuntime (fileOf chainJohn) = Inr chainJohn"
  using loadGraph_saved [of laterRuntime demoRuntime chainJohn] faithful_chainJohn
  by (simp add: fileOf_def reloaded_stamped chainJohn_def stamped_records)

lemma load_chainWorks: "loadGraph laterRuntime (fileOf chainWorks) = Inr chainWorks"
  using loadGraph_saved [of laterRuntime demoRuntime chainWorks] faithful_chainWorks
  by (simp add: fileOf_def reloaded_stamped chainWorks_def stamped_records)

lemma load_twoJohns: "loadGraph demoRuntime (fileOf twoJohns) = Inr twoJohns"
  using loadGraph_saved [OF faithful_twoJohns]
  by (simp add: fileOf_def reloaded_stamped twoJohns_def stamped_records)

lemma create_john:
  "createEntities demoRuntime (fileOf chainGraph) [johnInput] = Inr ([john0], fileOf chainJohn)"
  by (simp add: createEntities_single [OF load_chain] fileOf_eq)
     (simp add: entityKeys_def chainGraph_def chainJohn_def record_defs johnInput_def
       demoRuntime_def)

lemma create_worksAt:
  "createRelations demoRuntime (fileOf chainGraph) [worksAtInput] =
     Inr ([worksAt0], fileOf chainWorks)"
  by (simp add: createRelations_single [OF load_chain] fileOf_eq)
     (simp add: relationKeys_def relationKey_def inputKey_def chainGraph_def chainWorks_def
       record_defs worksAtInput_def demoRuntime_def)

theorem create_twice_witness:
  "loadGraph demoRuntime (fileOf chainGraph) = Inr chainGraph \<and>
   createEntities demoRuntime (fileOf chainGraph) [johnInput] = Inr ([john0], fileOf chainJohn) \<and>
   createEntities laterRuntime (fileOf chainJohn) [johnInput] = Inr ([], fileOf chainJohn) \<and>
   loadGraph laterRuntime (fileOf chainJohn) = Inr chainJohn \<and>
   count_list (entityKeys chainJohn) ''John'' = 1 \<and>
   createRelations demoRuntime (fileOf chainGraph) [worksAtInput] =
     Inr ([worksAt0], fileOf chainWorks) \<and>
   createRelations laterRuntime (fileOf chainWorks) [worksAtInput] = Inr ([], fileOf chainWorks) \<and>
   loadGraph laterRuntime (fileOf chainWorks) = Inr chainWorks \<and>
   count_list (relationKeys chainWorks) (''John'', ''Anthropic'', ''works_at'') = 1"
proof -
  have fe: "jsonFaithful (JSON_parse laterRuntime) (JSON_stringify demoRuntime)
              (chainGraph\<lparr>entries := entries chainGraph @ [john0]\<rparr>)"
    using faithful_chainJohn by (simp add: chainGraph_def chainJohn_def)
  have fr: "jsonFaithful (JSON_parse laterRuntime) (JSON_stringify demoRuntime)
              (chainGraph\<lparr>relations := relations chainGraph @ [worksAt0]\<rparr>)"
    using faithful_chainWorks by (simp add: chainGraph_def chainWorks_def)
  have ce: "count_list (entityKeys chainGraph) (EntityInput.name johnInput) \<le> 1"
    by (simp add: entityKeys_def chainGraph_def record_defs johnInput_def)
  have cr: "count_list (relationKeys chainGraph) (inputKey worksAtInput) \<le> 1"
    by (simp add: relationKeys_def relationKey_def inputKey_def chainGraph_def record_defs
        worksAtInput_def)
  from create_twice [OF load_chain later_JSON(1) create_john fe ce refl create_worksAt fr cr refl]
  have "createEntities laterRuntime (fileOf chainJohn) [johnInput] = Inr ([], fileOf chainJohn)"
    and "createRelations laterRuntime (fileOf chainWorks) [worksAtInput] =
           Inr ([], fileOf chainWorks)"
    by blast+
  moreover have "count_list (entityKeys chainJohn) ''John'' = 1"
    by (simp add: entityKeys_def chainJohn_def record_defs)
  moreover have "count_list (relationKeys chainWorks) (''John'', ''Anthropic'', ''works_at'') = 1"
    by (simp add: relationKeys_def relationKey_def chainWorks_def record_defs)
  ultimately show ?thesis
    using load_chain create_john load_chainJohn create_worksAt load_chainWorks by blast
qed

lemma faithful_twoWorksAt:
  "jsonFaithful (JSON_parse demoRuntime) (JSON_stringify demoRuntime) twoWorksAt"
  by code_simp

lemma load_twoWorksAt: "loadGraph demoRuntime (fileOf twoWorksAt) = Inr twoWorksAt"
  using loadGraph_saved [OF faithful_twoWorksAt]
  by (simp add: fileOf_def reloaded_stamped twoWorksAt_def stamped_records)

text \<open>
  C1 on two candidates of one batch. A candidate is compared with \<^verbatim>\<open>graph.entries\<close>
  (\<^verbatim>\<open>graph.relations\<close>) as loaded, not with the other candidates: on an empty store
  two candidates named \<^verbatim>\<open>John\<close> are both created, returned and saved, and the file
  then holds two entities of that name; two candidates with one triple likewise.
\<close>

theorem create_same_batch_duplicates:
  "createEntities demoRuntime NoFile [johnInput, johnInput] =
     Inr ([john0, john1], fileOf twoJohns) \<and>
   loadGraph demoRuntime (fileOf twoJohns) = Inr twoJohns \<and>
   count_list (entityKeys twoJohns) ''John'' = 2 \<and>
   createRelations demoRuntime NoFile [worksAtInput, worksAtInput] =
     Inr ([worksAt0, worksAt1], fileOf twoWorksAt) \<and>
   loadGraph demoRuntime (fileOf twoWorksAt) = Inr twoWorksAt \<and>
   count_list (relationKeys twoWorksAt) (''John'', ''Anthropic'', ''works_at'') = 2"
proof -
  have empty: "loadGraph demoRuntime NoFile = Inr emptyGraph"
    by (simp add: loadGraph_def readFile_def)
  from empty have "createEntities demoRuntime NoFile [johnInput, johnInput] =
     Inr ([john0, john1], fileOf twoJohns)"
    by (simp add: createEntities_def saveGraph_NoFile fileOf_eq emptyGraph_def)
       (simp add: twoJohns_def john0_def john1_def johnInput_def demoRuntime_def Let_def)
  moreover have "count_list (entityKeys twoJohns) ''John'' = 2"
    by (simp add: entityKeys_def twoJohns_def john0_def john1_def)
  moreover from empty have "createRelations demoRuntime NoFile [worksAtInput, worksAtInput] =
     Inr ([worksAt0, worksAt1], fileOf twoWorksAt)"
    by (simp add: createRelations_def saveGraph_NoFile fileOf_eq emptyGraph_def)
       (simp add: twoWorksAt_def worksAt0_def worksAt1_def worksAtInput_def demoRuntime_def
         Let_def)
  moreover have "count_list (relationKeys twoWorksAt) (''John'', ''Anthropic'', ''works_at'') = 2"
    by (simp add: relationKeys_def relationKey_def twoWorksAt_def worksAt0_def worksAt1_def)
  ultimately show ?thesis using load_twoJohns load_twoWorksAt by blast
qed

end
